theory Spec2Isabelle
  imports Main "HOL-Library.Sublist"
begin

section \<open>Data model of the damage-formula compiler\<close>

text \<open>
  The compiler is \<^verbatim>\<open>src/module/system/damage/formula.ts\<close>. JavaScript numbers are
  modelled as \<open>int\<close> (dice counts, faces and modifiers are whole numbers in the game data),
  strings as \<open>string\<close>, \<^verbatim>\<open>null\<close>/\<^verbatim>\<open>undefined\<close> as \<open>None\<close>.
\<close>

text \<open>\<^verbatim>\<open>DEGREE_OF_SUCCESS\<close>: the indices 0, 1, 2, 3 of @system/degree-of-success.\<close>

datatype DegreeOfSuccessIndex = CRITICAL_FAILURE | FAILURE | SUCCESS | CRITICAL_SUCCESS

text \<open>\<^verbatim>\<open>DamageCategoryUnique\<close> of ./types.ts; a \<^verbatim>\<open>null\<close> category is \<open>None\<close>.\<close>

datatype DamageCategoryUnique = Persistent | Precision | Splash

text \<open>\<^verbatim>\<open>DamageDieSize\<close>: the string literals "d4" ... "d12".\<close>

datatype DamageDieSize = D4 | D6 | D8 | D10 | D12

type_synonym DamageType = string
type_synonym MaterialDamageEffect = string

text \<open>\<^verbatim>\<open>CriticalInclusion\<close>: \<^verbatim>\<open>DOUBLE_ON_CRIT = null\<close>, \<^verbatim>\<open>CRITICAL_ONLY = true\<close>,
  \<^verbatim>\<open>DONT_DOUBLE_ON_CRIT = false\<close> (./values.ts).\<close>

type_synonym CriticalInclusion = "bool option"

definition DOUBLE_ON_CRIT :: CriticalInclusion where
  "DOUBLE_ON_CRIT = None"

definition CRITICAL_ONLY :: CriticalInclusion where
  "CRITICAL_ONLY = Some True"

definition DONT_DOUBLE_ON_CRIT :: CriticalInclusion where
  "DONT_DOUBLE_ON_CRIT = Some False"

text \<open>The base term of a definition. An absent \<^verbatim>\<open>diceNumber\<close> or \<^verbatim>\<open>modifier\<close> behaves
  as 0 everywhere the compiler reads it (truthiness tests and \<^verbatim>\<open>?? 0\<close>), an absent
  \<^verbatim>\<open>materials\<close> as the empty list.\<close>

record BaseDamageData =
  b_damageType :: DamageType
  b_diceNumber :: int
  b_dieSize :: "DamageDieSize option"
  b_modifier :: int
  b_category :: "DamageCategoryUnique option"
  b_materials :: "MaterialDamageEffect list"

text \<open>The fields of \<^verbatim>\<open>DamageDicePF2e\<close> and \<^verbatim>\<open>ModifierPF2e\<close> that the compiler reads.\<close>

record DamageDicePF2e =
  d_label :: string
  d_diceNumber :: int
  d_dieSize :: "DamageDieSize option"
  d_damageType :: "DamageType option"
  d_category :: "DamageCategoryUnique option"
  d_critical :: "bool option"
  d_enabled :: bool

record ModifierPF2e =
  m_label :: string
  m_value :: int
  m_damageType :: "DamageType option"
  m_damageCategory :: "DamageCategoryUnique option"
  m_critical :: "bool option"
  m_enabled :: bool

record DamageFormulaData =
  fd_base :: BaseDamageData
  fd_dice :: "DamageDicePF2e list"
  fd_modifiers :: "ModifierPF2e list"

record DiceSpec =
  number :: int
  faces :: int

record DamagePartialTerm =
  modifier :: int
  dice :: "DiceSpec option"

record DamagePartial = DamagePartialTerm +
  label :: string
  category :: "DamageCategoryUnique option"
  critical :: "bool option"
  materials :: "MaterialDamageEffect list"

record AssembledFormula =
  formula :: string
  breakdown :: "string list"

text \<open>A \<^verbatim>\<open>Map\<close> of JavaScript keeps its keys in insertion order: an association list.\<close>

type_synonym DamageTypeMap = "(DamageType \<times> DamagePartial list) list"

text \<open>What the compiler reads from its surroundings: the \<^verbatim>\<open>critRule\<close> setting,
  \<^verbatim>\<open>CONFIG.PF2E.damageTypes\<close>, \<^verbatim>\<open>game.i18n.localize\<close> and \<^verbatim>\<open>game.i18n.format\<close>
  (key, then the \<^verbatim>\<open>damageType\<close> datum).\<close>

record Env =
  critRule :: string
  damageTypes :: "DamageType \<Rightarrow> string option"
  localize :: "string \<Rightarrow> string"
  i18n_format :: "string \<Rightarrow> string \<Rightarrow> string"

section \<open>Strings and containers of the host language\<close>

definition digit_char :: "nat \<Rightarrow> char" where
  "digit_char n = ''0123456789'' ! (n mod 10)"

text \<open>The decimal digits of a natural number, the most significant first.\<close>

fun nat_string :: "nat \<Rightarrow> string" where
  "nat_string n = (if 10 \<le> n then nat_string (n div 10) @ [digit_char n] else [digit_char n])"

declare nat_string.simps [simp del]

text \<open>\<^verbatim>\<open>String(n)\<close> and template interpolation of a whole number.\<close>

definition number_string :: "int \<Rightarrow> string" where
  "number_string i = (if 0 \<le> i then nat_string (nat i) else CHR ''-'' # nat_string (nat (- i)))"

text \<open>\<^verbatim>\<open>Array.prototype.join\<close>.\<close>

fun join :: "string \<Rightarrow> string list \<Rightarrow> string" where
  "join sep [] = []"
| "join sep [x] = x"
| "join sep (x # y # ys) = x @ sep @ join sep (y # ys)"

text \<open>Interpolation of a string that may be \<^verbatim>\<open>null\<close>.\<close>

definition js_str :: "string option \<Rightarrow> string" where
  "js_str s = (case s of None \<Rightarrow> ''null'' | Some t \<Rightarrow> t)"

text \<open>\<^verbatim>\<open>Map.prototype.set\<close>: an existing key keeps its place, a new key goes last.\<close>

fun map_set :: "'k \<Rightarrow> 'v \<Rightarrow> ('k \<times> 'v) list \<Rightarrow> ('k \<times> 'v) list" where
  "map_set k v [] = [(k, v)]"
| "map_set k v ((k', v') # rest) =
     (if k' = k then (k, v) # rest else (k', v') # map_set k v rest)"

text \<open>\<^verbatim>\<open>map.get(k) ?? []\<close>.\<close>

definition get_or_empty :: "('k \<times> 'v list) list \<Rightarrow> 'k \<Rightarrow> 'v list" where
  "get_or_empty m k = (case map_of m k of None \<Rightarrow> [] | Some vs \<Rightarrow> vs)"

text \<open>Modelled from the spec: \<^verbatim>\<open>groupBy\<close> of @util is not among the sources. It groups
  the elements by the criterion into a \<^verbatim>\<open>Map\<close>; the groups stand in the order in which their
  keys first occur and each group keeps the order of the array.\<close>

definition groupBy :: "'a list \<Rightarrow> ('a \<Rightarrow> 'k) \<Rightarrow> ('k \<times> 'a list) list" where
  "groupBy array criterion =
     foldl (\<lambda>result elem. map_set (criterion elem) (get_or_empty result (criterion elem) @ [elem]) result)
       [] array"

text \<open>Modelled from the spec: \<^verbatim>\<open>sum\<close> of @util adds the numbers of an array.\<close>

definition sum_values :: "int list \<Rightarrow> int" where
  "sum_values values = foldl (+) 0 values"

text \<open>Modelled from the spec: \<^verbatim>\<open>sort(sortBy(f))\<close> orders an array by ascending key;
  the sort of the host language is stable.\<close>

definition sortBy :: "('a \<Rightarrow> int) \<Rightarrow> 'a list \<Rightarrow> 'a list" where
  "sortBy mapping xs = sort_key mapping xs"

text \<open>\<^verbatim>\<open>deepClone\<close> is a helper of the host platform and not among the sources: it copies
  plain objects and arrays, member by member, and returns an instance of a class as it is.
  On values a copy is the value itself; which objects the copy shares with the original is
  written out in the store model below.\<close>

definition deepClone :: "'a \<Rightarrow> 'a" where
  "deepClone x = x"

definition dieSize_string :: "DamageDieSize \<Rightarrow> string" where
  "dieSize_string s = (case s of D4 \<Rightarrow> ''d4'' | D6 \<Rightarrow> ''d6'' | D8 \<Rightarrow> ''d8'' | D10 \<Rightarrow> ''d10'' | D12 \<Rightarrow> ''d12'')"

text \<open>\<^verbatim>\<open>Number(dieSize.replace("d", ""))\<close>.\<close>

definition dieSize_faces :: "DamageDieSize \<Rightarrow> int" where
  "dieSize_faces s = (case s of D4 \<Rightarrow> 4 | D6 \<Rightarrow> 6 | D8 \<Rightarrow> 8 | D10 \<Rightarrow> 10 | D12 \<Rightarrow> 12)"

definition category_string :: "DamageCategoryUnique \<Rightarrow> string" where
  "category_string c = (case c of Persistent \<Rightarrow> ''persistent'' | Precision \<Rightarrow> ''precision'' | Splash \<Rightarrow> ''splash'')"

section \<open>The helpers of formula.ts\<close>

text \<open>\<^verbatim>\<open>hasOperators\<close>: the test of \<^verbatim>\<open>/[-+*/]/\<close>.\<close>

definition hasOperators :: "string option \<Rightarrow> bool" where
  "hasOperators f = list_ex (\<lambda>c. c \<in> set ''-+*/'') (case f of None \<Rightarrow> [] | Some s \<Rightarrow> s)"

definition isDigit :: "char \<Rightarrow> bool" where
  "isDigit c = (c \<in> set ''0123456789'')"

text \<open>In a regular expression \<^verbatim>\<open>.\<close> matches no line terminator (those of ASCII here:
  the formulas the compiler writes are ASCII).\<close>

definition lineTerminator :: "char \<Rightarrow> bool" where
  "lineTerminator c = (c = CHR 0x0A \<or> c = CHR 0x0D)"

text \<open>\<^verbatim>\<open>/^\(.*\)$/\<close>: an opening parenthesis first and a closing one last.\<close>

definition isWrapped :: "string \<Rightarrow> bool" where
  "isWrapped s =
     (case s of
        [] \<Rightarrow> False
      | c # rest \<Rightarrow> c = CHR ''('' \<and> rest \<noteq> [] \<and> last rest = CHR '')''
                    \<and> list_all (\<lambda>ch. \<not> lineTerminator ch) (butlast rest))"

text \<open>\<^verbatim>\<open>/^\d+(d\d+)?$/\<close>: digits, then nothing or a \<^verbatim>\<open>d\<close> and digits.\<close>

definition isSimple :: "string \<Rightarrow> bool" where
  "isSimple s =
     (takeWhile isDigit s \<noteq> [] \<and>
      (case dropWhile isDigit s of
         [] \<Rightarrow> True
       | c # rest \<Rightarrow> c = CHR ''d'' \<and> rest \<noteq> [] \<and> list_all isDigit rest))"

text \<open>\<^verbatim>\<open>ensureValidFormulaHead\<close> (lines 297-302).\<close>

definition ensureValidFormulaHead :: "string option \<Rightarrow> string option" where
  "ensureValidFormulaHead fo =
     (case fo of
        None \<Rightarrow> None
      | Some f \<Rightarrow>
          if f = [] then None
          else if isWrapped f \<or> isSimple f then Some f
          else Some (''('' @ f @ '')''))"

text \<open>\<^verbatim>\<open>sumExpression\<close> (lines 282-289); a falsy term is \<^verbatim>\<open>null\<close> or the empty string.\<close>

definition truthy :: "string option \<Rightarrow> bool" where
  "truthy t = (case t of None \<Rightarrow> False | Some s \<Rightarrow> s \<noteq> [])"

definition sumExpression :: "string option list \<Rightarrow> bool \<Rightarrow> string option" where
  "sumExpression terms double =
     (if list_all (\<lambda>t. \<not> truthy t) terms then None
      else
        let joined = join '' + '' (map js_str (filter truthy terms));
            summed = (if joined = [] then None else Some joined);
            enclosed = (if double \<and> hasOperators summed then Some (''('' @ js_str summed @ '')'') else summed)
        in if double then Some (''2 * '' @ js_str enclosed) else enclosed)"

text \<open>\<^verbatim>\<open>combinePartialTerms\<close> (lines 216-242). Of a partial that passes the filter only
  its dice are read afterwards, so the filtered list holds the dice. A group of
  \<^verbatim>\<open>groupBy\<close> is never empty; \<^verbatim>\<open>terms[0]\<close> is its first element.\<close>

datatype str_or_num = Str string | Num int

definition dicePartials :: "('a DamagePartialTerm_scheme) list \<Rightarrow> DiceSpec list" where
  "dicePartials terms =
     sortBy (\<lambda>t. - faces t)
       (List.map_filter
          (\<lambda>p. case dice p of None \<Rightarrow> None | Some d \<Rightarrow> if number d > 0 then Some d else None)
          terms)"

definition combinedDice :: "DiceSpec list \<Rightarrow> DiceSpec list" where
  "combinedDice ds =
     List.map_filter
       (\<lambda>terms. case terms of [] \<Rightarrow> None | t # _ \<Rightarrow> Some (t\<lparr>number := sum_values (map number terms)\<rparr>))
       (map snd (groupBy ds faces))"

definition positiveDice :: "DiceSpec list \<Rightarrow> DiceSpec list" where
  "positiveDice ds = filter (\<lambda>t. number t > 0) (combinedDice ds)"

definition diceTerm :: "bool \<Rightarrow> DiceSpec \<Rightarrow> string" where
  "diceTerm doubleDice t =
     (let n = (if doubleDice then number t * 2 else number t)
      in if doubleDice then ''('' @ number_string n @ ''d'' @ number_string (faces t) @ ''[doubled])''
         else number_string n @ ''d'' @ number_string (faces t))"

definition combinePartialTerms :: "('a DamagePartialTerm_scheme) list \<Rightarrow> bool \<Rightarrow> string" where
  "combinePartialTerms terms doubleDice =
     (let constant = foldl (\<lambda>total p. total + modifier p) 0 terms;
          diceTerms = map (diceTerm doubleDice) (positiveDice (dicePartials terms))
      in join (if constant > 0 then '' + '' else '' - '')
           (map (\<lambda>e. case e of
                        Num n \<Rightarrow> if doubleDice then ''2 * '' @ number_string n else number_string n
                      | Str s \<Rightarrow> s)
              (filter (\<lambda>e. case e of Num n \<Rightarrow> n \<noteq> 0 | Str s \<Rightarrow> s \<noteq> [])
                 [Str (join '' + '' diceTerms), Num (abs constant)])))"

text \<open>\<^verbatim>\<open>createPartialFormulas\<close> (lines 196-213).\<close>

definition categories :: "DamageCategoryUnique option list" where
  "categories = [None, Some Persistent, Some Precision, Some Splash]"

definition categoryFragment ::
  "DamageCategoryUnique option \<Rightarrow> DamagePartial list \<Rightarrow> CriticalInclusion list \<Rightarrow> bool \<Rightarrow> string" where
  "categoryFragment cat ps criticalInclusion doubleDice =
     (let requestedPartials = filter (\<lambda>p. critical p \<in> set criticalInclusion) ps;
          expression = combinePartialTerms requestedPartials doubleDice;
          term = (if (cat = Some Precision \<or> cat = Some Splash) \<and> hasOperators (Some expression)
                  then ''('' @ expression @ '')'' else expression)
      in case cat of
           None \<Rightarrow> term
         | Some c \<Rightarrow> if term \<noteq> [] \<and> c \<noteq> Persistent then term @ ''['' @ category_string c @ '']'' else term)"

definition createPartialFormulas ::
  "(DamageCategoryUnique option \<times> DamagePartial list) list \<Rightarrow> CriticalInclusion list \<Rightarrow> bool \<Rightarrow> string list" where
  "createPartialFormulas partials criticalInclusion doubleDice =
     concat (map (\<lambda>cat.
        let flavored = categoryFragment cat (get_or_empty partials cat) criticalInclusion doubleDice
        in if flavored \<noteq> [] then [flavored] else []) categories)"

section \<open>Instances of one damage type\<close>

text \<open>The pieces of \<^verbatim>\<open>instancesFromTypeMap\<close> (lines 123-194), named after its constants.\<close>

definition criticalInclusion_nonCritical :: "DegreeOfSuccessIndex \<Rightarrow> CriticalInclusion list" where
  "criticalInclusion_nonCritical degree =
     (if degree = CRITICAL_SUCCESS then [DOUBLE_ON_CRIT] else [DOUBLE_ON_CRIT, DONT_DOUBLE_ON_CRIT])"

text \<open>Lines 142-145: whether to double the dice of the partials.\<close>

definition doubleDice :: "Env \<Rightarrow> DegreeOfSuccessIndex \<Rightarrow> bool" where
  "doubleDice env degree =
     (degree = CRITICAL_SUCCESS \<and> None \<in> set (criticalInclusion_nonCritical degree)
      \<and> critRule env = ''doubledice'')"

text \<open>Line 148: whether to double the whole sum.\<close>

definition double :: "Env \<Rightarrow> DegreeOfSuccessIndex \<Rightarrow> bool" where
  "double env degree = (degree = CRITICAL_SUCCESS \<and> \<not> doubleDice env degree)"

definition nonCriticalDamage ::
  "Env \<Rightarrow> DegreeOfSuccessIndex \<Rightarrow> (DamageCategoryUnique option \<times> DamagePartial list) list \<Rightarrow> string option" where
  "nonCriticalDamage env degree groups =
     sumExpression
       (map Some (createPartialFormulas groups (criticalInclusion_nonCritical degree) (doubleDice env degree)))
       (double env degree)"

definition criticalDamage ::
  "DegreeOfSuccessIndex \<Rightarrow> (DamageCategoryUnique option \<times> DamagePartial list) list \<Rightarrow> string option" where
  "criticalDamage degree groups =
     (if degree \<noteq> CRITICAL_SUCCESS then None
      else sumExpression (map Some (createPartialFormulas groups [CRITICAL_ONLY, DONT_DOUBLE_ON_CRIT] False)) False)"

text \<open>Line 158; the degree is truthy unless it is the index 0.\<close>

definition summedDamage ::
  "Env \<Rightarrow> DegreeOfSuccessIndex \<Rightarrow> (DamageCategoryUnique option \<times> DamagePartial list) list \<Rightarrow> string option" where
  "summedDamage env degree groups =
     sumExpression
       (if degree \<noteq> CRITICAL_FAILURE
        then [nonCriticalDamage env degree groups, criticalDamage degree groups]
        else [nonCriticalDamage env degree groups])
       False"

text \<open>Lines 161-167.\<close>

definition flavor :: "DamageType \<Rightarrow> bool \<Rightarrow> DamagePartial list \<Rightarrow> string" where
  "flavor damageType persistent typePartials =
     (let typeFlavor = (if damageType = ''untyped'' \<and> \<not> persistent then [] else [damageType]);
          persistentFlavor = (if persistent then [''persistent''] else []);
          materialFlavor = concat (map materials typePartials);
          allFlavor = join '','' (typeFlavor @ persistentFlavor @ materialFlavor)
      in if length allFlavor > 0 then ''['' @ allFlavor @ '']'' else [])"

text \<open>Lines 170-175: the partials whose labels make the breakdown.\<close>

definition flattenedDamage ::
  "(DamageCategoryUnique option \<times> DamagePartial list) list \<Rightarrow> DamagePartial list" where
  "flattenedDamage groups = concat (map (\<lambda>c. get_or_empty groups c) categories)"

definition breakdownDamage ::
  "DegreeOfSuccessIndex \<Rightarrow> (DamageCategoryUnique option \<times> DamagePartial list) list \<Rightarrow> DamagePartial list" where
  "breakdownDamage degree groups =
     filter (\<lambda>d. critical d \<noteq> Some True) (flattenedDamage groups)
     @ (if degree = CRITICAL_SUCCESS then filter (\<lambda>d. critical d = Some True) (flattenedDamage groups) else [])"

definition isSpace :: "char \<Rightarrow> bool" where
  "isSpace c = (c \<in> set [CHR '' '', CHR 0x09, CHR 0x0A, CHR 0x0B, CHR 0x0C, CHR 0x0D])"

text \<open>\<^verbatim>\<open>replace(/^\s+\+/, "")\<close>: leading white space followed by a plus sign is removed
  (white space of ASCII; the labels are taken to be ASCII).\<close>

definition stripLeadingPlus :: "string \<Rightarrow> string" where
  "stripLeadingPlus s =
     (if takeWhile isSpace s \<noteq> [] then
        (case dropWhile isSpace s of
           [] \<Rightarrow> s
         | c # rest \<Rightarrow> if c = CHR ''+'' then rest else s)
      else s)"

text \<open>Lines 177-188.\<close>

definition breakdown_of ::
  "Env \<Rightarrow> DegreeOfSuccessIndex \<Rightarrow> DamageType \<Rightarrow> (DamageCategoryUnique option \<times> DamagePartial list) list \<Rightarrow> string list" where
  "breakdown_of env degree damageType groups =
     (case breakdownDamage degree groups of
        [] \<Rightarrow> []
      | d0 # ds \<Rightarrow>
          let localized = localize env (case damageTypes env damageType of None \<Rightarrow> damageType | Some t \<Rightarrow> t);
              damageTypeLabel =
                (if category d0 = Some Persistent
                 then i18n_format env ''PF2E.Damage.PersistentTooltip'' localized
                 else localized)
          in (stripLeadingPlus (label d0) @ '' '' @ damageTypeLabel) # map label ds)"

text \<open>The callback of \<^verbatim>\<open>flatMap\<close>: no instance, or one.\<close>

definition instanceOfType ::
  "Env \<Rightarrow> DegreeOfSuccessIndex \<Rightarrow> bool \<Rightarrow> DamageType \<times> DamagePartial list \<Rightarrow> AssembledFormula list" where
  "instanceOfType env degree persistent entry =
     (let damageType = fst entry;
          typePartials = snd entry;
          partials = filter (\<lambda>p. (category p = Some Persistent) = persistent) typePartials
      in if length partials = 0 then []
         else
           let groups = groupBy partials category;
               enclosed = ensureValidFormulaHead (summedDamage env degree groups);
               fl = flavor damageType persistent typePartials;
               fo = (if truthy enclosed \<and> fl \<noteq> [] then Some (js_str enclosed @ fl) else enclosed)
           in case fo of
                None \<Rightarrow> []
              | Some f \<Rightarrow>
                  if f = [] then []
                  else [\<lparr>formula = f, breakdown = breakdown_of env degree damageType groups\<rparr>])"

definition instancesFromTypeMap ::
  "Env \<Rightarrow> DamageTypeMap \<Rightarrow> DegreeOfSuccessIndex \<Rightarrow> bool \<Rightarrow> AssembledFormula list" where
  "instancesFromTypeMap env typeMap degree persistent =
     concat (map (instanceOfType env degree persistent) typeMap)"

section \<open>The compiler\<close>

text \<open>Lines 38-39: on a failure only the splash entries stay; the base is not touched.\<close>

definition failureFilter :: "DamageFormulaData \<Rightarrow> DamageFormulaData" where
  "failureFilter damage =
     damage\<lparr>fd_dice := filter (\<lambda>d. d_category d = Some Splash) (fd_dice damage),
            fd_modifiers := filter (\<lambda>m. m_damageCategory m = Some Splash) (fd_modifiers damage)\<rparr>"

text \<open>Lines 48-55: the label of the base partial. A die size that is \<^verbatim>\<open>null\<close> is
  interpolated as such.\<close>

definition baseLabel :: "BaseDamageData \<Rightarrow> string" where
  "baseLabel b =
     (if b_diceNumber b = 0 then number_string (b_modifier b)
      else
        let diceSection = number_string (b_diceNumber b)
                          @ (case b_dieSize b of None \<Rightarrow> ''null'' | Some s \<Rightarrow> dieSize_string s)
        in if b_modifier b = 0 then diceSection
           else diceSection @ (if b_modifier b < 0 then '' - '' else '' + '')
                @ number_string (abs (b_modifier b)))"

text \<open>Lines 46-70: the type map holds the base partial when the base has dice or a modifier.\<close>

definition basePartial :: "BaseDamageData \<Rightarrow> DamagePartial" where
  "basePartial b =
     \<lparr>modifier = b_modifier b,
      dice = (case b_dieSize b of
                None \<Rightarrow> None
              | Some s \<Rightarrow> if b_diceNumber b \<noteq> 0
                          then Some \<lparr>number = b_diceNumber b, faces = dieSize_faces s\<rparr> else None),
      label = baseLabel b,
      category = b_category b,
      critical = None,
      materials = b_materials b\<rparr>"

definition baseTypeMap :: "BaseDamageData \<Rightarrow> DamageTypeMap" where
  "baseTypeMap b =
     (if (b_diceNumber b \<noteq> 0 \<and> b_dieSize b \<noteq> None) \<or> b_modifier b \<noteq> 0
      then map_set (b_damageType b) [basePartial b] []
      else [])"

text \<open>Lines 78-84: the partial pushed for a dice entry whose die size resolved to \<open>s\<close>.\<close>

definition dicePartial :: "DamageDieSize \<Rightarrow> DamageDicePF2e \<Rightarrow> DamagePartial" where
  "dicePartial s d =
     \<lparr>modifier = 0,
      dice = Some \<lparr>number = d_diceNumber d, faces = dieSize_faces s\<rparr>,
      label = d_label d,
      category = d_category d,
      critical = d_critical d,
      materials = []\<rparr>"

text \<open>Line 74: the die size of a dice entry falls back to the base's.\<close>

definition resolvedDieSize :: "BaseDamageData \<Rightarrow> DamageDicePF2e \<Rightarrow> DamageDieSize option" where
  "resolvedDieSize b d = (case d_dieSize d of Some s \<Rightarrow> Some s | None \<Rightarrow> b_dieSize b)"

text \<open>Lines 76 and 100: the damage type falls back to the base's.\<close>

definition resolvedDamageType :: "BaseDamageData \<Rightarrow> DamageType option \<Rightarrow> DamageType" where
  "resolvedDamageType b t = (case t of Some t' \<Rightarrow> t' | None \<Rightarrow> b_damageType b)"

text \<open>Lines 73-87: one step of the loop over the enabled dice.\<close>

definition addDice :: "BaseDamageData \<Rightarrow> DamageTypeMap \<Rightarrow> DamageDicePF2e \<Rightarrow> DamageTypeMap" where
  "addDice b typeMap d =
     (case resolvedDieSize b d of
        None \<Rightarrow> typeMap
      | Some s \<Rightarrow>
          if d_diceNumber d > 0 then
            let damageType = resolvedDamageType b (d_damageType d);
                list = get_or_empty typeMap damageType
            in map_set damageType (list @ [dicePartial s d]) typeMap
          else typeMap)"

text \<open>Line 90.\<close>

definition outcomeMatches :: "bool \<Rightarrow> bool option \<Rightarrow> bool" where
  "outcomeMatches crit m_crit = (crit \<or> m_crit \<noteq> Some True)"

text \<open>Line 95: \<^verbatim>\<open>modifier.damageType ??= base.damageType\<close>.\<close>

definition defaultDamageType :: "BaseDamageData \<Rightarrow> ModifierPF2e \<Rightarrow> ModifierPF2e" where
  "defaultDamageType b m =
     (case m_damageType m of None \<Rightarrow> m\<lparr>m_damageType := Some (b_damageType b)\<rparr> | Some _ \<Rightarrow> m)"

text \<open>Lines 92-97: the constant \<^verbatim>\<open>modifiers\<close>.\<close>

definition matchingModifiers :: "bool \<Rightarrow> DamageFormulaData \<Rightarrow> ModifierPF2e list" where
  "matchingModifiers crit damage =
     filter (\<lambda>m. outcomeMatches crit (m_critical m))
       (map (defaultDamageType (fd_base damage)) (filter m_enabled (fd_modifiers damage)))"

text \<open>Lines 102-108: the partial pushed for a modifier.\<close>

definition modifierPartial :: "ModifierPF2e \<Rightarrow> DamagePartial" where
  "modifierPartial m =
     \<lparr>modifier = m_value m,
      dice = None,
      label = m_label m @ '' '' @ (if m_value m < 0 then [] else ''+'') @ number_string (m_value m),
      category = m_damageCategory m,
      critical = m_critical m,
      materials = []\<rparr>"

text \<open>Lines 99-110: one step of the loop over the modifiers.\<close>

definition addModifier :: "BaseDamageData \<Rightarrow> DamageTypeMap \<Rightarrow> ModifierPF2e \<Rightarrow> DamageTypeMap" where
  "addModifier b typeMap m =
     (let damageType = resolvedDamageType b (m_damageType m);
          list = get_or_empty typeMap damageType
      in map_set damageType (list @ [modifierPartial m]) typeMap)"

text \<open>Lines 46-110: the type map of a definition.\<close>

definition buildTypeMap :: "bool \<Rightarrow> DamageFormulaData \<Rightarrow> DamageTypeMap" where
  "buildTypeMap crit damage =
     foldl (addModifier (fd_base damage))
       (foldl (addDice (fd_base damage)) (baseTypeMap (fd_base damage)) (filter d_enabled (fd_dice damage)))
       (matchingModifiers crit damage)"

text \<open>Lines 112-119.\<close>

definition instances :: "Env \<Rightarrow> DamageTypeMap \<Rightarrow> DegreeOfSuccessIndex \<Rightarrow> AssembledFormula list" where
  "instances env typeMap degree =
     instancesFromTypeMap env typeMap degree False @ instancesFromTypeMap env typeMap degree True"

definition assemble :: "Env \<Rightarrow> DamageTypeMap \<Rightarrow> DegreeOfSuccessIndex \<Rightarrow> AssembledFormula" where
  "assemble env typeMap degree =
     (let commaSeparated = join '','' (map formula (instances env typeMap degree))
      in \<lparr>formula = ''{'' @ commaSeparated @ ''}'',
          breakdown = concat (map breakdown (instances env typeMap degree))\<rparr>)"

text \<open>\<^verbatim>\<open>createDamageFormula\<close> (lines 27-120). The optional argument is \<open>None\<close> when the
  caller leaves it out; \<open>None\<close> as a result is \<^verbatim>\<open>null\<close>.\<close>

definition createDamageFormula ::
  "Env \<Rightarrow> DamageFormulaData \<Rightarrow> DegreeOfSuccessIndex option \<Rightarrow> AssembledFormula option" where
  "createDamageFormula env damage0 degreeArg =
     (let degree = (case degreeArg of None \<Rightarrow> SUCCESS | Some g \<Rightarrow> g);
          damage = deepClone damage0
      in if degree = CRITICAL_FAILURE then None
         else
           let damage' = (if degree = FAILURE then failureFilter damage else damage);
               crit = (degree = CRITICAL_SUCCESS)
           in Some (assemble env (buildTypeMap crit damage') degree))"

text \<open>A property of every element of every list of a map (of every partial of a type map,
  of every member of a group).\<close>

definition typeMap_all :: "('a \<Rightarrow> bool) \<Rightarrow> ('k \<times> 'a list) list \<Rightarrow> bool" where
  "typeMap_all Q typeMap = list_all (\<lambda>entry. list_all Q (snd entry)) typeMap"

section \<open>Concrete definitions used as test inputs\<close>

text \<open>An environment with the subtotal-doubling rule, one with the dice-doubling rule;
  neither renames a damage type.\<close>

definition env_subtotal :: Env where
  "env_subtotal =
     \<lparr>critRule = ''doubledamage'', damageTypes = (\<lambda>t. None), localize = (\<lambda>s. s),
      i18n_format = (\<lambda>k d. ''Persistent '' @ d)\<rparr>"

definition env_doubledice :: Env where
  "env_doubledice =
     \<lparr>critRule = ''doubledice'', damageTypes = (\<lambda>t. None), localize = (\<lambda>s. s),
      i18n_format = (\<lambda>k d. ''Persistent '' @ d)\<rparr>"

text \<open>The example of the specification: a base of 2d6 fire, an enabled splash die 1d4 fire,
  a modifier +3 fire.\<close>

definition fire_example :: DamageFormulaData where
  "fire_example =
     \<lparr>fd_base = \<lparr>b_damageType = ''fire'', b_diceNumber = 2, b_dieSize = Some D6, b_modifier = 0,
                 b_category = None, b_materials = []\<rparr>,
      fd_dice = [\<lparr>d_label = ''Splash'', d_diceNumber = 1, d_dieSize = Some D4, d_damageType = Some ''fire'',
                  d_category = Some Splash, d_critical = None, d_enabled = True\<rparr>],
      fd_modifiers = [\<lparr>m_label = ''Str'', m_value = 3, m_damageType = Some ''fire'',
                       m_damageCategory = None, m_critical = None, m_enabled = True\<rparr>]\<rparr>"

text \<open>The partials that are not flagged critical-only, and a definition without its
  critical-only modifiers (used to state what the outcome filter of line 90 drops).\<close>

definition withoutCriticalOnly :: "DamagePartial list \<Rightarrow> DamagePartial list" where
  "withoutCriticalOnly ps = filter (\<lambda>p. critical p \<noteq> Some True) ps"

definition withoutCriticalOnlyModifiers :: "DamageFormulaData \<Rightarrow> DamageFormulaData" where
  "withoutCriticalOnlyModifiers damage =
     damage\<lparr>fd_modifiers := filter (\<lambda>m. m_critical m \<noteq> Some True) (fd_modifiers damage)\<rparr>"

text \<open>A definition with a critical-only die (cold) and a critical-only modifier (fire).\<close>

definition deadly_die :: DamageDicePF2e where
  "deadly_die =
     \<lparr>d_label = ''Deadly'', d_diceNumber = 1, d_dieSize = None, d_damageType = Some ''cold'',
      d_category = None, d_critical = Some True, d_enabled = True\<rparr>"

definition critOnly_example :: DamageFormulaData where
  "critOnly_example =
     \<lparr>fd_base = \<lparr>b_damageType = ''fire'', b_diceNumber = 2, b_dieSize = Some D6, b_modifier = 0,
                 b_category = None, b_materials = []\<rparr>,
      fd_dice = [deadly_die],
      fd_modifiers =
        [\<lparr>m_label = ''Acid'', m_value = 1, m_damageType = Some ''acid'', m_damageCategory = None,
          m_critical = None, m_enabled = True\<rparr>,
         \<lparr>m_label = ''Frost'', m_value = 2, m_damageType = Some ''cold'', m_damageCategory = None,
          m_critical = None, m_enabled = True\<rparr>,
         \<lparr>m_label = ''Fatal'', m_value = 4, m_damageType = None, m_damageCategory = None,
          m_critical = Some True, m_enabled = True\<rparr>]\<rparr>"


text \<open>The terms of the simple formula \<^verbatim>\<open>2d6 - 1d6\<close> as \<^verbatim>\<open>parseTermsFromSimpleFormula\<close>
  (lines 248-273) hands them over: the subtracted die has a negative count.\<close>

definition two_d6_minus_one_d6 :: "DamagePartialTerm list" where
  "two_d6_minus_one_d6 =
     [\<lparr>modifier = 0, dice = Some \<lparr>number = 2, faces = 6\<rparr>\<rparr>,
      \<lparr>modifier = 0, dice = Some \<lparr>number = - 1, faces = 6\<rparr>\<rparr>]"

text \<open>A weapon of 1d8 fire with one more enabled die of 1d6 fire.\<close>

definition two_dice_example :: DamageFormulaData where
  "two_dice_example =
     \<lparr>fd_base = \<lparr>b_damageType = ''fire'', b_diceNumber = 1, b_dieSize = Some D8, b_modifier = 0,
                 b_category = None, b_materials = []\<rparr>,
      fd_dice = [\<lparr>d_label = ''Flame'', d_diceNumber = 1, d_dieSize = Some D6, d_damageType = None,
                  d_category = None, d_critical = None, d_enabled = True\<rparr>],
      fd_modifiers = []\<rparr>"

section \<open>Category fragments in the order of the term\<close>

text \<open>The place of a category in the array \<^verbatim>\<open>categories\<close> of lines 170 and 200.\<close>

definition categoryRank :: "DamageCategoryUnique option \<Rightarrow> nat" where
  "categoryRank c = (case c of None \<Rightarrow> 0 | Some Persistent \<Rightarrow> 1 | Some Precision \<Rightarrow> 2 | Some Splash \<Rightarrow> 3)"

text \<open>\<^verbatim>\<open>createPartialFormulas\<close> once more, each fragment paired with the category whose
  iteration of \<^verbatim>\<open>flatMap\<close> made it.\<close>

definition taggedPartialFormulas ::
  "(DamageCategoryUnique option \<times> DamagePartial list) list \<Rightarrow> CriticalInclusion list \<Rightarrow> bool
   \<Rightarrow> (DamageCategoryUnique option \<times> string) list" where
  "taggedPartialFormulas partials criticalInclusion dd =
     concat (map (\<lambda>cat.
        let flavored = categoryFragment cat (get_or_empty partials cat) criticalInclusion dd
        in if flavored \<noteq> [] then [(cat, flavored)] else []) categories)"

text \<open>The fragments of one instance in the order in which line 158 sums them: those of the
  non-critical sub-expression, then those of the critical-only one.\<close>

definition termFragments ::
  "Env \<Rightarrow> DegreeOfSuccessIndex \<Rightarrow> (DamageCategoryUnique option \<times> DamagePartial list) list
   \<Rightarrow> (DamageCategoryUnique option \<times> string) list" where
  "termFragments env degree groups =
     taggedPartialFormulas groups (criticalInclusion_nonCritical degree) (doubleDice env degree)
     @ (if degree = CRITICAL_SUCCESS
        then taggedPartialFormulas groups [CRITICAL_ONLY, DONT_DOUBLE_ON_CRIT] False else [])"

text \<open>A weapon of 1d6 slashing with a splash die and a critical-only modifier.\<close>

definition crit_splash_example :: DamageFormulaData where
  "crit_splash_example =
     \<lparr>fd_base = \<lparr>b_damageType = ''slashing'', b_diceNumber = 1, b_dieSize = Some D6, b_modifier = 0,
                 b_category = None, b_materials = []\<rparr>,
      fd_dice = [\<lparr>d_label = ''Splash'', d_diceNumber = 1, d_dieSize = Some D4, d_damageType = None,
                  d_category = Some Splash, d_critical = None, d_enabled = True\<rparr>],
      fd_modifiers = [\<lparr>m_label = ''Fatal'', m_value = 2, m_damageType = None, m_damageCategory = None,
                       m_critical = Some True, m_enabled = True\<rparr>]\<rparr>"

text \<open>Its slashing partials in the type map (at a critical success, or at another outcome).\<close>

definition crit_splash_partials :: "bool \<Rightarrow> DamagePartial list" where
  "crit_splash_partials crit = get_or_empty (buildTypeMap crit crit_splash_example) ''slashing''"

section \<open>The grammar of the pooled formula\<close>







text \<open>Terms with two partials of d6, and a negative and a positive partial of d8.\<close>

definition dice_mix :: "DamagePartialTerm list" where
  "dice_mix =
     [\<lparr>modifier = 0, dice = Some \<lparr>number = 2, faces = 6\<rparr>\<rparr>,
      \<lparr>modifier = 0, dice = Some \<lparr>number = - 1, faces = 8\<rparr>\<rparr>,
      \<lparr>modifier = 0, dice = Some \<lparr>number = 1, faces = 8\<rparr>\<rparr>,
      \<lparr>modifier = 0, dice = Some \<lparr>number = 1, faces = 6\<rparr>\<rparr>]"

section \<open>Entries given out of the order of the categories\<close>

text \<open>A weapon of 1d8 slashing whose entries are listed against the order of the categories:
  the splash die before the precision die, and the critical-only modifier before the plain
  one.\<close>

definition unordered_example :: DamageFormulaData where
  "unordered_example =
     \<lparr>fd_base = \<lparr>b_damageType = ''slashing'', b_diceNumber = 1, b_dieSize = Some D8, b_modifier = 0,
                 b_category = None, b_materials = []\<rparr>,
      fd_dice = [\<lparr>d_label = ''Splash'', d_diceNumber = 1, d_dieSize = Some D4, d_damageType = None,
                  d_category = Some Splash, d_critical = None, d_enabled = True\<rparr>,
                 \<lparr>d_label = ''Sneak'', d_diceNumber = 1, d_dieSize = Some D6, d_damageType = None,
                  d_category = Some Precision, d_critical = None, d_enabled = True\<rparr>],
      fd_modifiers = [\<lparr>m_label = ''Fatal'', m_value = 2, m_damageType = None, m_damageCategory = None,
                       m_critical = Some True, m_enabled = True\<rparr>,
                      \<lparr>m_label = ''Str'', m_value = 3, m_damageType = None, m_damageCategory = None,
                       m_critical = None, m_enabled = True\<rparr>]\<rparr>"

text \<open>Its slashing partials in the type map at a critical success.\<close>

definition unordered_partials :: "DamagePartial list" where
  "unordered_partials = get_or_empty (buildTypeMap True unordered_example) ''slashing''"

section \<open>The caller's definition and the objects it shares\<close>






text \<open>Line 95, \<^verbatim>\<open>modifier.damageType ??= base.damageType\<close>, over the enabled modifiers of the
  array: an assignment to the modifier object itself.\<close>

definition defaultModifiers :: "BaseDamageData \<Rightarrow> ModifierPF2e list \<Rightarrow> nat list \<Rightarrow> ModifierPF2e list" where
  "defaultModifiers b ms refs =
     foldl (\<lambda>ms' r. if m_enabled (ms' ! r) then ms'[r := defaultDamageType b (ms' ! r)] else ms') ms refs"



section \<open>The character after a product sign\<close>


section \<open>Auxiliary lemmas\<close>

subsection \<open>Invariants of the type map\<close>

lemma typeMap_all_map_set:
  "typeMap_all Q tm \<Longrightarrow> list_all Q v \<Longrightarrow> typeMap_all Q (map_set k v tm)"
  by (induction tm) (auto simp: typeMap_all_def)

lemma typeMap_all_get:
  "typeMap_all Q tm \<Longrightarrow> list_all Q (get_or_empty tm k)"
proof (cases "map_of tm k")
  case None
  then show ?thesis by (simp add: get_or_empty_def)
next
  case (Some vs)
  assume "typeMap_all Q tm"
  moreover from Some have "(k, vs) \<in> set tm" by (rule map_of_SomeD)
  ultimately have "list_all Q vs" by (auto simp: typeMap_all_def list_all_iff)
  with Some show ?thesis by (simp add: get_or_empty_def)
qed

lemma typeMap_all_foldl:
  "(\<And>x tm'. x \<in> set xs \<Longrightarrow> typeMap_all Q tm' \<Longrightarrow> typeMap_all Q (f tm' x)) \<Longrightarrow> typeMap_all Q tm
   \<Longrightarrow> typeMap_all Q (foldl f tm xs)"
  by (induction xs arbitrary: tm) auto

lemma typeMap_all_addDice:
  "typeMap_all Q tm \<Longrightarrow> (\<And>s. Q (dicePartial s d)) \<Longrightarrow> typeMap_all Q (addDice b tm d)"
  by (auto simp: addDice_def Let_def typeMap_all_map_set typeMap_all_get split: option.splits)

lemma typeMap_all_addModifier:
  "typeMap_all Q tm \<Longrightarrow> Q (modifierPartial m) \<Longrightarrow> typeMap_all Q (addModifier b tm m)"
  by (auto simp: addModifier_def Let_def typeMap_all_map_set typeMap_all_get split: option.splits)

lemma typeMap_all_base:
  "Q (basePartial b) \<Longrightarrow> typeMap_all Q (baseTypeMap b)"
  by (simp add: baseTypeMap_def typeMap_all_def)

lemma defaultDamageType_fields [simp]:
  "m_critical (defaultDamageType b m) = m_critical m"
  "m_enabled (defaultDamageType b m) = m_enabled m"
  "m_value (defaultDamageType b m) = m_value m"
  "m_label (defaultDamageType b m) = m_label m"
  "m_damageCategory (defaultDamageType b m) = m_damageCategory m"
  by (simp_all add: defaultDamageType_def split: option.splits)

lemma modifierPartial_default [simp]:
  "modifierPartial (defaultDamageType b m) = modifierPartial m"
  by (simp add: modifierPartial_def)

lemma matchingModifiers_elem:
  assumes "x \<in> set (matchingModifiers crit damage)"
  obtains m where "m \<in> set (fd_modifiers damage)" "m_enabled m"
    "outcomeMatches crit (m_critical m)" "modifierPartial x = modifierPartial m"
  using assms by (auto simp: matchingModifiers_def)

text \<open>A property of the base partial, of the partial of every enabled dice entry and of the
  partial of every enabled modifier that matches the outcome holds of the whole type map.\<close>

lemma typeMap_all_buildTypeMap:
  assumes "Q (basePartial (fd_base damage))"
    and "\<And>s d. d \<in> set (fd_dice damage) \<Longrightarrow> d_enabled d \<Longrightarrow> Q (dicePartial s d)"
    and "\<And>m. m \<in> set (fd_modifiers damage) \<Longrightarrow> m_enabled m \<Longrightarrow> outcomeMatches crit (m_critical m)
          \<Longrightarrow> Q (modifierPartial m)"
  shows "typeMap_all Q (buildTypeMap crit damage)"
proof -
  let ?b = "fd_base damage"
  have "typeMap_all Q (baseTypeMap ?b)"
    using assms(1) by (rule typeMap_all_base)
  then have "typeMap_all Q (foldl (addDice ?b) (baseTypeMap ?b) (filter d_enabled (fd_dice damage)))"
    by (rule typeMap_all_foldl[rotated]) (auto intro: typeMap_all_addDice assms(2))
  then show ?thesis
    unfolding buildTypeMap_def
  proof (rule typeMap_all_foldl[rotated])
    fix x and tm' :: DamageTypeMap
    assume x: "x \<in> set (matchingModifiers crit damage)" and tm': "typeMap_all Q tm'"
    from x obtain m where "m \<in> set (fd_modifiers damage)" "m_enabled m"
      "outcomeMatches crit (m_critical m)" "modifierPartial x = modifierPartial m"
      by (rule matchingModifiers_elem)
    then have "Q (modifierPartial x)" using assms(3) by simp
    with tm' show "typeMap_all Q (addModifier (fd_base damage) tm' x)"
      by (rule typeMap_all_addModifier)
  qed
qed

subsection \<open>A failure is assembled as a success is\<close>

lemma summedDamage_failure_success:
  "summedDamage env FAILURE groups = summedDamage env SUCCESS groups"
  by (simp add: summedDamage_def nonCriticalDamage_def criticalDamage_def
      criticalInclusion_nonCritical_def doubleDice_def double_def)

lemma breakdown_of_failure_success:
  "breakdown_of env FAILURE t groups = breakdown_of env SUCCESS t groups"
  by (simp add: breakdown_of_def breakdownDamage_def)

lemma instanceOfType_failure_success:
  "instanceOfType env FAILURE persistent entry = instanceOfType env SUCCESS persistent entry"
  unfolding instanceOfType_def summedDamage_failure_success breakdown_of_failure_success
  by (rule refl)

lemma assemble_failure_success: "assemble env tm FAILURE = assemble env tm SUCCESS"
  unfolding assemble_def instances_def instancesFromTypeMap_def instanceOfType_failure_success
  by (rule refl)

subsection \<open>Entries of the type map; critical-only partials\<close>

lemma map_of_map_set:
  "map_of (map_set k v tm) k' = (if k' = k then Some v else map_of tm k')"
  by (induction tm) auto

lemma get_or_empty_map_set:
  "get_or_empty (map_set k v tm) k' = (if k' = k then v else get_or_empty tm k')"
  by (simp add: get_or_empty_def map_of_map_set)

lemma addDice_keeps:
  "p \<in> set (get_or_empty tm k) \<Longrightarrow> p \<in> set (get_or_empty (addDice b tm d) k)"
  by (auto simp: addDice_def Let_def get_or_empty_map_set split: option.splits)

lemma addModifier_keeps:
  "p \<in> set (get_or_empty tm k) \<Longrightarrow> p \<in> set (get_or_empty (addModifier b tm m) k)"
  by (auto simp: addModifier_def Let_def get_or_empty_map_set)

lemma foldl_keeps:
  "(\<And>tm' x. p \<in> set (get_or_empty tm' k) \<Longrightarrow> p \<in> set (get_or_empty (f tm' x) k))
   \<Longrightarrow> p \<in> set (get_or_empty tm k) \<Longrightarrow> p \<in> set (get_or_empty (foldl f tm xs) k)"
  by (induction xs arbitrary: tm) auto

lemma addDice_adds:
  "resolvedDieSize b d = Some s \<Longrightarrow> d_diceNumber d > 0
   \<Longrightarrow> dicePartial s d \<in> set (get_or_empty (addDice b tm d) (resolvedDamageType b (d_damageType d)))"
  by (simp add: addDice_def Let_def get_or_empty_map_set)

lemma foldl_addDice_contains:
  "d \<in> set ds \<Longrightarrow> resolvedDieSize b d = Some s \<Longrightarrow> d_diceNumber d > 0
   \<Longrightarrow> dicePartial s d \<in> set (get_or_empty (foldl (addDice b) tm ds) (resolvedDamageType b (d_damageType d)))"
proof (induction ds arbitrary: tm)
  case Nil
  then show ?case by simp
next
  case (Cons x ds)
  show ?case
  proof (cases "x = d")
    case True
    have "dicePartial s d \<in> set (get_or_empty (addDice b tm d) (resolvedDamageType b (d_damageType d)))"
      using Cons.prems(2,3) by (rule addDice_adds)
    then have "dicePartial s d \<in> set (get_or_empty (foldl (addDice b) (addDice b tm d) ds) (resolvedDamageType b (d_damageType d)))"
      by (rule foldl_keeps[rotated]) (rule addDice_keeps)
    with True show ?thesis by simp
  next
    case False
    with Cons.prems have "d \<in> set ds" by simp
    then show ?thesis using Cons.IH Cons.prems(2,3) by simp
  qed
qed

lemma buildTypeMap_contains_dice:
  assumes "d \<in> set (fd_dice damage)" "d_enabled d" "d_diceNumber d > 0"
    "resolvedDieSize (fd_base damage) d = Some s"
  shows "dicePartial s d \<in> set (get_or_empty (buildTypeMap crit damage)
           (resolvedDamageType (fd_base damage) (d_damageType d)))"
proof -
  from assms(1,2) have "d \<in> set (filter d_enabled (fd_dice damage))" by simp
  then have "dicePartial s d \<in> set (get_or_empty
       (foldl (addDice (fd_base damage)) (baseTypeMap (fd_base damage)) (filter d_enabled (fd_dice damage)))
       (resolvedDamageType (fd_base damage) (d_damageType d)))"
    using assms(4,3) by (rule foldl_addDice_contains)
  then show ?thesis
    unfolding buildTypeMap_def by (rule foldl_keeps[rotated]) (rule addModifier_keeps)
qed

lemma matchingModifiers_without:
  "matchingModifiers False (withoutCriticalOnlyModifiers damage) = matchingModifiers False damage"
proof -
  have "filter (\<lambda>m. outcomeMatches False (m_critical m))
          (map (defaultDamageType b) (filter m_enabled (filter (\<lambda>m. m_critical m \<noteq> Some True) ms)))
      = filter (\<lambda>m. outcomeMatches False (m_critical m)) (map (defaultDamageType b) (filter m_enabled ms))" for b ms
    by (induction ms) (simp_all add: outcomeMatches_def)
  then show ?thesis
    by (simp add: matchingModifiers_def withoutCriticalOnlyModifiers_def)
qed

lemma buildTypeMap_without:
  "buildTypeMap False (withoutCriticalOnlyModifiers damage) = buildTypeMap False damage"
  by (simp add: buildTypeMap_def matchingModifiers_without) (simp add: withoutCriticalOnlyModifiers_def)

lemma get_or_empty_map_filter:
  "get_or_empty (map (\<lambda>g. (fst g, filter P (snd g))) groups) c = filter P (get_or_empty groups c)"
  by (induction groups) (auto simp: get_or_empty_def)

lemma categoryFragment_without:
  "Some True \<notin> set incl
   \<Longrightarrow> categoryFragment c (withoutCriticalOnly ps) incl dd = categoryFragment c ps incl dd"
proof -
  assume n: "Some True \<notin> set incl"
  have "filter (\<lambda>p. critical p \<in> set incl) (withoutCriticalOnly ps)
        = filter (\<lambda>p. critical p \<in> set incl) ps"
    unfolding withoutCriticalOnly_def filter_filter
    by (rule filter_cong) (use n in auto)
  then show ?thesis by (simp add: categoryFragment_def)
qed

lemma createPartialFormulas_without:
  "Some True \<notin> set incl
   \<Longrightarrow> createPartialFormulas (map (\<lambda>g. (fst g, withoutCriticalOnly (snd g))) groups) incl dd
       = createPartialFormulas groups incl dd"
  unfolding createPartialFormulas_def
  by (simp add: withoutCriticalOnly_def[abs_def] get_or_empty_map_filter)
     (simp add: withoutCriticalOnly_def[symmetric] categoryFragment_without)

lemma summedDamage_without:
  "degree \<noteq> CRITICAL_SUCCESS
   \<Longrightarrow> summedDamage env degree (map (\<lambda>g. (fst g, withoutCriticalOnly (snd g))) groups)
       = summedDamage env degree groups"
  by (simp add: summedDamage_def nonCriticalDamage_def criticalDamage_def
      criticalInclusion_nonCritical_def createPartialFormulas_without
      DOUBLE_ON_CRIT_def DONT_DOUBLE_ON_CRIT_def)

subsection \<open>Joined strings and summed expressions\<close>

lemma join_Cons: "join sep (x # xs) = (if xs = [] then x else x @ sep @ join sep xs)"
  by (cases xs) simp_all

lemma join_nonempty: "xs \<noteq> [] \<Longrightarrow> \<forall>x\<in>set xs. x \<noteq> [] \<Longrightarrow> join sep xs \<noteq> []"
  by (cases xs) (simp_all add: join_Cons)

lemma set_join: "set (join sep xs) \<subseteq> set sep \<union> \<Union>(set ` set xs)"
  by (induction xs) (auto simp: join_Cons)

lemma createPartialFormulas_elem:
  "f \<in> set (createPartialFormulas g incl dd)
   \<longleftrightarrow> f \<noteq> [] \<and> (\<exists>c \<in> set categories. f = categoryFragment c (get_or_empty g c) incl dd)"
  by (auto simp: createPartialFormulas_def Let_def)

lemma createPartialFormulas_nonempty: "f \<in> set (createPartialFormulas g incl dd) \<Longrightarrow> f \<noteq> []"
  by (simp add: createPartialFormulas_elem)

lemma sumExpression_Some:
  assumes "\<forall>f\<in>set parts. f \<noteq> []"
  shows "sumExpression (map Some parts) dbl =
     (if parts = [] then None
      else if dbl then Some (''2 * '' @ (if hasOperators (Some (join '' + '' parts))
                                         then ''('' @ join '' + '' parts @ '')'' else join '' + '' parts))
      else Some (join '' + '' parts))"
proof (cases "parts = []")
  case True
  then show ?thesis by (simp add: sumExpression_def)
next
  case False
  have t: "filter truthy (map Some parts) = map Some parts"
    using assms by (induction parts) (auto simp: truthy_def)
  have n: "\<not> list_all (\<lambda>t. \<not> truthy t) (map Some parts)"
    using False assms by (cases parts) (auto simp: truthy_def)
  have j: "join '' + '' parts \<noteq> []"
    using False assms by (rule join_nonempty)
  have m: "map js_str (map Some parts) = parts"
    by (induction parts) (simp_all add: js_str_def)
  have "sumExpression (map Some parts) dbl =
     (let joined = join '' + '' parts;
          summed = (if joined = [] then None else Some joined);
          enclosed = (if dbl \<and> hasOperators summed then Some (''('' @ js_str summed @ '')'') else summed)
      in if dbl then Some (''2 * '' @ js_str enclosed) else enclosed)"
    unfolding sumExpression_def t m using n by simp
  then show ?thesis
    using False j by (simp add: Let_def js_str_def)
qed

subsection \<open>The characters of rendered terms\<close>










lemma doubled_mark_diceTerm: "sublist ''[doubled]'' (diceTerm True t)"
proof -
  have "diceTerm True t = (''('' @ number_string (number t * 2) @ ''d'' @ number_string (faces t))
                           @ ''[doubled]'' @ '')''"
    by (simp add: diceTerm_def)
  then show ?thesis by (simp only: sublist_appendI)
qed

subsection \<open>Groups and combined dice\<close>

lemma sum_values_sum_list: "sum_values xs = sum_list xs"
proof -
  have "foldl (+) a xs = a + sum_list xs" for a :: int
    by (induction xs arbitrary: a) simp_all
  then show ?thesis by (simp add: sum_values_def)
qed

lemma nonempty_map_set:
  "list_all (\<lambda>e. snd e \<noteq> []) m \<Longrightarrow> v \<noteq> [] \<Longrightarrow> list_all (\<lambda>e. snd e \<noteq> []) (map_set k v m)"
  by (induction m) auto

lemma groupBy_invariant:
  assumes "\<forall>x\<in>set xs. Q x"
  shows "typeMap_all Q (groupBy xs f) \<and> list_all (\<lambda>e. snd e \<noteq> []) (groupBy xs f)"
proof -
  have "typeMap_all Q (foldl (\<lambda>result elem. map_set (f elem) (get_or_empty result (f elem) @ [elem]) result) m xs)
        \<and> list_all (\<lambda>e. snd e \<noteq> [])
            (foldl (\<lambda>result elem. map_set (f elem) (get_or_empty result (f elem) @ [elem]) result) m xs)"
    if "typeMap_all Q m" "list_all (\<lambda>e. snd e \<noteq> []) m" for m
    using assms that
  proof (induction xs arbitrary: m)
    case Nil
    then show ?case by simp
  next
    case (Cons x xs)
    have 1: "typeMap_all Q (map_set (f x) (get_or_empty m (f x) @ [x]) m)"
      using Cons.prems by (intro typeMap_all_map_set) (simp_all add: typeMap_all_get)
    have 2: "list_all (\<lambda>e. snd e \<noteq> []) (map_set (f x) (get_or_empty m (f x) @ [x]) m)"
      using Cons.prems by (intro nonempty_map_set) simp_all
    show ?case using Cons.IH[OF _ 1 2] Cons.prems(1) by simp
  qed
  then show ?thesis by (simp add: groupBy_def typeMap_all_def)
qed

lemma groupBy_group:
  assumes "\<forall>x\<in>set xs. Q x" "g \<in> set (map snd (groupBy xs f))"
  shows "g \<noteq> [] \<and> (\<forall>x\<in>set g. Q x)"
  using groupBy_invariant[OF assms(1), of f] assms(2)
  by (auto simp: typeMap_all_def list_all_iff)

lemma in_set_map_filter:
  "y \<in> set (List.map_filter f xs) \<longleftrightarrow> (\<exists>x\<in>set xs. f x = Some y)"
  by (induction xs) (auto split: option.splits)

lemma dicePartials_positive: "d \<in> set (dicePartials terms) \<Longrightarrow> number d > 0"
  by (auto simp: dicePartials_def sortBy_def in_set_map_filter split: option.splits if_splits)

lemma sum_list_pos: "xs \<noteq> [] \<Longrightarrow> \<forall>x\<in>set xs. (0::int) < x \<Longrightarrow> 0 < sum_list xs"
proof (induction xs)
  case Nil
  then show ?case by simp
next
  case (Cons a xs)
  then have "0 \<le> sum_list xs" by (intro sum_list_nonneg) (simp add: less_imp_le)
  with Cons.prems show ?case by simp
qed

lemma combinedDice_elem:
  assumes "\<forall>d\<in>set ds. number d > 0 \<and> Q (faces d)" "t \<in> set (combinedDice ds)"
  shows "number t > 0 \<and> Q (faces t)"
proof -
  from assms(2) obtain g where g: "g \<in> set (map snd (groupBy ds faces))"
    and t: "(case g of [] \<Rightarrow> None | t' # _ \<Rightarrow> Some (t'\<lparr>number := sum_values (map number g)\<rparr>)) = Some t"
    unfolding combinedDice_def in_set_map_filter by blast
  from groupBy_group[OF assms(1) g] have ne: "g \<noteq> []" and all: "\<forall>x\<in>set g. number x > 0 \<and> Q (faces x)"
    by blast+
  from ne obtain t' rest where gc: "g = t' # rest" by (cases g) auto
  with t have te: "t = t'\<lparr>number := sum_list (map number g)\<rparr>" by (simp add: sum_values_sum_list)
  have "0 < sum_list (map number g)"
    using ne all by (intro sum_list_pos) auto
  moreover have "Q (faces t')" using all gc by simp
  ultimately show ?thesis by (simp add: te)
qed

lemma positiveDice_is_combinedDice:
  "positiveDice (dicePartials terms) = combinedDice (dicePartials terms)"
proof -
  have "\<forall>d\<in>set (dicePartials terms). number d > 0 \<and> True"
    by (simp add: dicePartials_positive)
  then have "\<forall>t\<in>set (combinedDice (dicePartials terms)). number t > 0"
    using combinedDice_elem[where Q="\<lambda>_. True"] by blast
  then show ?thesis by (simp add: positiveDice_def)
qed

subsection \<open>Groups by category and their order\<close>

lemma get_or_empty_groupBy:
  "get_or_empty (groupBy xs f) k = filter (\<lambda>x. f x = k) xs"
proof -
  have "get_or_empty (foldl (\<lambda>result elem. map_set (f elem) (get_or_empty result (f elem) @ [elem]) result) m xs) k
        = get_or_empty m k @ filter (\<lambda>x. f x = k) xs" for m
    by (induction xs arbitrary: m) (simp_all add: get_or_empty_map_set)
  then show ?thesis by (simp add: groupBy_def get_or_empty_def)
qed

lemma map_snd_tagged:
  "map snd (taggedPartialFormulas groups incl dd) = createPartialFormulas groups incl dd"
  by (simp add: taggedPartialFormulas_def createPartialFormulas_def categories_def Let_def)

lemma tagged_elem:
  "(c, f) \<in> set (taggedPartialFormulas groups incl dd)
   \<Longrightarrow> f = categoryFragment c (get_or_empty groups c) incl dd \<and> f \<noteq> []"
  by (auto simp: taggedPartialFormulas_def Let_def split: if_splits)

lemma tagged_sorted:
  "sorted_wrt (<) (map (categoryRank \<circ> fst) (taggedPartialFormulas groups incl dd))"
  by (simp add: taggedPartialFormulas_def categories_def Let_def categoryRank_def)

lemma rank_of_group:
  "map (categoryRank \<circ> category) (filter (\<lambda>p. category p = c) ps)
     = replicate (length (filter (\<lambda>p. category p = c) ps)) (categoryRank c)"
  by (induction ps) simp_all

lemma flattened_sorted:
  "sorted (map (categoryRank \<circ> category) (flattenedDamage (groupBy ps category)))"
  by (auto simp: flattenedDamage_def categories_def get_or_empty_groupBy rank_of_group sorted_append
      categoryRank_def)

lemma breakdown_sorted:
  "degree \<noteq> CRITICAL_SUCCESS
   \<Longrightarrow> sorted (map (categoryRank \<circ> category) (breakdownDamage degree (groupBy ps category)))"
proof -
  assume "degree \<noteq> CRITICAL_SUCCESS"
  then have "map (categoryRank \<circ> category) (breakdownDamage degree (groupBy ps category))
     = map (categoryRank \<circ> category)
         (filter (\<lambda>d. critical d \<noteq> Some True) (flattenedDamage (groupBy ps category)))"
    by (simp add: breakdownDamage_def)
  also have "\<dots> = filter (\<lambda>r. True) (map (categoryRank \<circ> category)
         (filter (\<lambda>d. critical d \<noteq> Some True) (flattenedDamage (groupBy ps category))))"
    by simp
  finally show ?thesis
    using sorted_filter[OF flattened_sorted[of ps], of "\<lambda>d. critical d \<noteq> Some True"]
    by simp
qed

lemma summedDamage_noncritical:
  assumes "degree \<noteq> CRITICAL_SUCCESS"
  shows "summedDamage env degree groups
         = (let parts = createPartialFormulas groups [DOUBLE_ON_CRIT, DONT_DOUBLE_ON_CRIT] False
            in if parts = [] then None else Some (join '' + '' parts))"
proof -
  let ?parts = "createPartialFormulas groups [DOUBLE_ON_CRIT, DONT_DOUBLE_ON_CRIT] False"
  have ne: "\<forall>f\<in>set ?parts. f \<noteq> []"
    by (simp add: createPartialFormulas_nonempty)
  have n: "nonCriticalDamage env degree groups
           = (if ?parts = [] then None else Some (join '' + '' ?parts))"
    using assms
    by (simp add: nonCriticalDamage_def criticalInclusion_nonCritical_def doubleDice_def double_def
        sumExpression_Some[OF ne])
  have j: "join '' + '' ?parts \<noteq> []" if "?parts \<noteq> []"
    using that ne by (rule join_nonempty)
  have c: "criticalDamage degree groups = None"
    using assms by (simp add: criticalDamage_def)
  have s: "summedDamage env degree groups
           = sumExpression (if degree \<noteq> CRITICAL_FAILURE
                            then [if ?parts = [] then None else Some (join '' + '' ?parts), None]
                            else [if ?parts = [] then None else Some (join '' + '' ?parts)]) False"
    unfolding summedDamage_def n c by (rule refl)
  show ?thesis
  proof (cases "?parts = []")
    case True
    then show ?thesis by (simp add: s sumExpression_def truthy_def)
  next
    case False
    with j show ?thesis by (simp add: s sumExpression_def truthy_def js_str_def Let_def)
  qed
qed

subsection \<open>Every term is an expression of the grammar\<close>

lemma nat_string_nonempty: "nat_string n \<noteq> []"
  by (subst nat_string.simps) simp

lemma number_string_nonempty: "number_string i \<noteq> []"
  by (simp add: number_string_def nat_string_nonempty)




























subsection \<open>The groups of \<open>groupBy\<close>\<close>

lemma map_set_keys: "fst ` set (map_set k v m) = insert k (fst ` set m)"
proof (induction m)
  case Nil
  then show ?case by simp
next
  case (Cons e m)
  obtain k' v' where e: "e = (k', v')" by (cases e)
  show ?case
  proof (cases "k' = k")
    case True
    with e show ?thesis by simp
  next
    case False
    with e Cons.IH show ?thesis by (simp add: insert_commute)
  qed
qed

lemma distinct_map_set: "distinct (map fst m) \<Longrightarrow> distinct (map fst (map_set k v m))"
proof (induction m)
  case Nil
  then show ?case by simp
next
  case (Cons e m)
  obtain k' v' where e: "e = (k', v')" by (cases e)
  show ?case
  proof (cases "k' = k")
    case True
    with Cons.prems e show ?thesis by (simp add: image_iff)
  next
    case False
    have "k' \<notin> fst ` set (map_set k v m)"
      using Cons.prems e False by (simp add: map_set_keys)
    with Cons e False show ?thesis by simp
  qed
qed

lemma groupBy_distinct: "distinct (map fst (groupBy xs f))"
proof -
  have "distinct (map fst (foldl (\<lambda>result elem. map_set (f elem) (get_or_empty result (f elem) @ [elem]) result) m xs))"
    if "distinct (map fst m)" for m
    using that by (induction xs arbitrary: m) (simp_all add: distinct_map_set)
  then show ?thesis by (simp add: groupBy_def)
qed

lemma groupBy_entry:
  assumes "(k, g) \<in> set (groupBy xs f)"
  shows "g = filter (\<lambda>x. f x = k) xs"
proof -
  have "map_of (groupBy xs f) k = Some g"
    using groupBy_distinct assms by (rule map_of_is_SomeI)
  then have "get_or_empty (groupBy xs f) k = g" by (simp add: get_or_empty_def)
  then show ?thesis by (simp add: get_or_empty_groupBy)
qed

lemma combinedDice_map:
  "combinedDice ds
   = map (\<lambda>e. (hd (snd e))\<lparr>number := sum_list (map number (filter (\<lambda>d. faces d = fst e) ds))\<rparr>)
       (groupBy ds faces)"
proof -
  have "(case snd e of [] \<Rightarrow> None | t # _ \<Rightarrow> Some (t\<lparr>number := sum_values (map number (snd e))\<rparr>))
        = Some ((hd (snd e))\<lparr>number := sum_list (map number (filter (\<lambda>d. faces d = fst e) ds))\<rparr>)"
    if "e \<in> set (groupBy ds faces)" for e
  proof -
    from that have "(fst e, snd e) \<in> set (groupBy ds faces)" by simp
    then have g: "snd e = filter (\<lambda>d. faces d = fst e) ds" by (rule groupBy_entry)
    have "snd e \<in> set (map snd (groupBy ds faces))" using that by simp
    with groupBy_group[of ds "\<lambda>_. True" "snd e" faces] have "snd e \<noteq> []" by simp
    then obtain t rest where "snd e = t # rest" by (cases "snd e") auto
    then show ?thesis using g by (simp add: sum_values_sum_list)
  qed
  then have "List.map_filter (\<lambda>terms. case terms of [] \<Rightarrow> None | t # _ \<Rightarrow> Some (t\<lparr>number := sum_values (map number terms)\<rparr>))
          (map snd (groupBy ds faces))
        = map (\<lambda>e. (hd (snd e))\<lparr>number := sum_list (map number (filter (\<lambda>d. faces d = fst e) ds))\<rparr>)
            (groupBy ds faces)"
    by (induction "groupBy ds faces") (auto simp: List.map_filter_def)
  then show ?thesis by (simp add: combinedDice_def)
qed

lemma groupBy_head_key:
  assumes "e \<in> set (groupBy ds f)"
  shows "f (hd (snd e)) = fst e"
proof -
  from assms have "(fst e, snd e) \<in> set (groupBy ds f)" by simp
  then have g: "snd e = filter (\<lambda>d. f d = fst e) ds" by (rule groupBy_entry)
  have "snd e \<in> set (map snd (groupBy ds f))" using assms by simp
  with groupBy_group[of ds "\<lambda>_. True" "snd e" f] have "snd e \<noteq> []" by simp
  then have "hd (snd e) \<in> set (snd e)" by (rule hd_in_set)
  with g have "hd (snd e) \<in> set (filter (\<lambda>d. f d = fst e) ds)" by simp
  then show ?thesis by simp
qed

lemma combinedDice_faces: "map faces (combinedDice ds) = map fst (groupBy ds faces)"
  by (simp add: combinedDice_map groupBy_head_key)

lemma combinedDice_number:
  assumes "t \<in> set (combinedDice ds)"
  shows "number t = sum_list (map number (filter (\<lambda>d. faces d = faces t) ds))"
proof -
  from assms obtain e where e: "e \<in> set (groupBy ds faces)"
    and t: "t = (hd (snd e))\<lparr>number := sum_list (map number (filter (\<lambda>d. faces d = fst e) ds))\<rparr>"
    by (auto simp: combinedDice_map)
  from t have "faces t = faces (hd (snd e))" by simp
  also have "\<dots> = fst e" using e by (rule groupBy_head_key)
  finally show ?thesis using t by simp
qed

lemma in_dicePartials:
  "d \<in> set (dicePartials terms) \<longleftrightarrow> 0 < number d \<and> (\<exists>p \<in> set terms. dice p = Some d)"
proof -
  have "((case dice p of None \<Rightarrow> None | Some d' \<Rightarrow> if number d' > 0 then Some d' else None) = Some d)
        = (dice p = Some d \<and> 0 < number d)" for p :: "'a DamagePartialTerm_scheme"
    by (cases "dice p") auto
  then show ?thesis
    by (auto simp: dicePartials_def sortBy_def in_set_map_filter)
qed

subsection \<open>The combiner and the fragments, written out\<close>

lemma foldl_modifier_sum:
  "foldl (\<lambda>total p. total + modifier p) a terms = a + sum_list (map modifier terms)"
  by (induction terms arbitrary: a) simp_all

lemma diceTerm_nonempty: "diceTerm dd t \<noteq> []"
  by (simp add: diceTerm_def Let_def number_string_nonempty)

lemma join_dice_empty: "(join sep (map (diceTerm dd) ds) = []) = (ds = [])"
proof (cases ds)
  case Nil
  then show ?thesis by simp
next
  case (Cons d rest)
  then show ?thesis by (simp add: join_Cons diceTerm_nonempty)
qed

lemma combinePartialTerms_explicit:
  "combinePartialTerms terms dd
   = (let c = sum_list (map modifier terms);
          ds = positiveDice (dicePartials terms)
      in join (if 0 < c then '' + '' else '' - '')
           ((if ds = [] then [] else [join '' + '' (map (diceTerm dd) ds)])
            @ (if c = 0 then [] else [(if dd then ''2 * '' else []) @ number_string \<bar>c\<bar>])))"
  by (simp add: combinePartialTerms_def Let_def foldl_modifier_sum join_dice_empty)



subsection \<open>The product sign of a doubled constant\<close>















subsection \<open>The groups in the order of their faces\<close>

lemma map_filter_concat:
  "List.map_filter f xs = concat (map (\<lambda>x. case f x of None \<Rightarrow> [] | Some y \<Rightarrow> [y]) xs)"
  by (induction xs) (simp_all split: option.splits)

lemma dicePartials_explicit:
  "dicePartials terms
   = sort_key (\<lambda>d. - faces d)
       (concat (map (\<lambda>p. case dice p of None \<Rightarrow> [] | Some d \<Rightarrow> if 0 < number d then [d] else []) terms))"
proof -
  have "(case (case dice p of None \<Rightarrow> None | Some d \<Rightarrow> if 0 < number d then Some d else None) of
           None \<Rightarrow> [] | Some y \<Rightarrow> [y])
        = (case dice p of None \<Rightarrow> [] | Some d \<Rightarrow> if 0 < number d then [d] else [])"
    for p :: "'a DamagePartialTerm_scheme"
    by (cases "dice p") simp_all
  then show ?thesis
    by (simp add: dicePartials_def sortBy_def map_filter_concat)
qed

lemma map_fst_map_set:
  "map fst (map_set k v m) = (if k \<in> fst ` set m then map fst m else map fst m @ [k])"
proof (induction m)
  case Nil
  then show ?case by simp
next
  case (Cons e m)
  obtain k' v' where e: "e = (k', v')" by (cases e)
  show ?case
  proof (cases "k' = k")
    case True
    with e show ?thesis by simp
  next
    case False
    with e Cons.IH show ?thesis by (cases "k \<in> fst ` set m") simp_all
  qed
qed

lemma sorted_wrt_drop_middle: "sorted_wrt R (as @ k # bs) \<Longrightarrow> sorted_wrt R (as @ bs)"
  by (auto simp: sorted_wrt_append)

lemma groupBy_keys_sorted:
  assumes "sorted_wrt R (map f xs)"
  shows "sorted_wrt R (map fst (groupBy xs f))"
proof -
  have "sorted_wrt R (map fst (foldl (\<lambda>result elem. map_set (f elem) (get_or_empty result (f elem) @ [elem]) result) m xs))"
    if "sorted_wrt R (map fst m @ map f xs)" for m
    using that
  proof (induction xs arbitrary: m)
    case Nil
    then show ?case by simp
  next
    case (Cons x xs)
    let ?m' = "map_set (f x) (get_or_empty m (f x) @ [x]) m"
    have "sorted_wrt R (map fst ?m' @ map f xs)"
    proof (cases "f x \<in> fst ` set m")
      case True
      from Cons.prems have "sorted_wrt R (map fst m @ f x # map f xs)" by simp
      then have "sorted_wrt R (map fst m @ map f xs)" by (rule sorted_wrt_drop_middle)
      with True show ?thesis by (simp add: map_fst_map_set)
    next
      case False
      with Cons.prems show ?thesis by (simp add: map_fst_map_set)
    qed
    then show ?case using Cons.IH by simp
  qed
  then show ?thesis using assms by (simp add: groupBy_def)
qed

lemma groupBy_keys_set: "fst ` set (groupBy xs f) = f ` set xs"
proof -
  have "fst ` set (foldl (\<lambda>result elem. map_set (f elem) (get_or_empty result (f elem) @ [elem]) result) m xs)
        = fst ` set m \<union> f ` set xs" for m
    by (induction xs arbitrary: m) (simp_all add: map_set_keys Un_commute insert_commute)
  then show ?thesis by (simp add: groupBy_def)
qed

lemma strict_of_distinct:
  "sorted_wrt (\<lambda>a b. (b::int) \<le> a) xs \<Longrightarrow> distinct xs \<Longrightarrow> sorted_wrt (\<lambda>a b. b < a) xs"
  by (induction xs) (auto simp: less_le)

lemma sum_filter_insort:
  "sum_list (map g (filter P (insort_key k x xs))) = sum_list (map g (filter P (x # xs)))"
  for g :: "'a \<Rightarrow> int"
  by (induction xs) auto

lemma sum_filter_sort:
  "sum_list (map g (filter P (sort_key k xs))) = sum_list (map g (filter P xs))"
  for g :: "'a \<Rightarrow> int"
  by (induction xs) (simp_all add: sum_filter_insort)

lemma combinedDice_descending:
  "sorted_wrt (\<lambda>a b. faces b < faces a) (combinedDice (dicePartials terms))"
proof -
  have "sorted (map (\<lambda>d. - faces d) (dicePartials terms))"
    by (simp add: dicePartials_def sortBy_def)
  then have "sorted_wrt (\<lambda>a b. b \<le> a) (map faces (dicePartials terms))"
    by (simp add: sorted_wrt_map sorted_map)
  then have "sorted_wrt (\<lambda>a b. b \<le> a) (map fst (groupBy (dicePartials terms) faces))"
    by (rule groupBy_keys_sorted)
  then have "sorted_wrt (\<lambda>a b. b < a) (map fst (groupBy (dicePartials terms) faces))"
    using groupBy_distinct by (rule strict_of_distinct)
  then have "sorted_wrt (\<lambda>a b. b < a) (map faces (combinedDice (dicePartials terms)))"
    by (simp add: combinedDice_faces)
  then show ?thesis by (simp add: sorted_wrt_map)
qed

subsection \<open>The two sub-expressions of a critical success\<close>

lemma nonCriticalDamage_crit:
  "nonCriticalDamage env CRITICAL_SUCCESS groups
        = (let parts = createPartialFormulas groups [DOUBLE_ON_CRIT] (doubleDice env CRITICAL_SUCCESS);
               j = join '' + '' parts
           in if parts = [] then None
              else if doubleDice env CRITICAL_SUCCESS then Some j
              else Some (''2 * '' @ (if hasOperators (Some j) then ''('' @ j @ '')'' else j)))"
proof -
  have ne: "\<forall>f\<in>set (createPartialFormulas groups incl' dd'). f \<noteq> []" for incl' dd'
    by (simp add: createPartialFormulas_nonempty)
  show ?thesis
    by (simp add: nonCriticalDamage_def criticalInclusion_nonCritical_def double_def
        sumExpression_Some[OF ne] Let_def)
qed

lemma criticalDamage_crit:
  "criticalDamage CRITICAL_SUCCESS groups
        = (let parts = createPartialFormulas groups [CRITICAL_ONLY, DONT_DOUBLE_ON_CRIT] False
           in if parts = [] then None else Some (join '' + '' parts))"
proof -
  have ne: "\<forall>f\<in>set (createPartialFormulas groups incl' dd'). f \<noteq> []" for incl' dd'
    by (simp add: createPartialFormulas_nonempty)
  show ?thesis
    by (simp add: criticalDamage_def sumExpression_Some[OF ne] Let_def)
qed

lemma sumExpression_pair:
  assumes "x \<noteq> Some []" "y \<noteq> Some []"
  shows "sumExpression [x, y] False
         = (case x of
              None \<Rightarrow> y
            | Some a \<Rightarrow> (case y of None \<Rightarrow> Some a | Some b \<Rightarrow> Some (a @ '' + '' @ b)))"
  using assms
  by (cases x; cases y) (simp_all add: sumExpression_def truthy_def js_str_def Let_def)

lemma summedDamage_crit:
  "summedDamage env CRITICAL_SUCCESS groups
   = (let N = createPartialFormulas groups [DOUBLE_ON_CRIT] (doubleDice env CRITICAL_SUCCESS);
          C = createPartialFormulas groups [CRITICAL_ONLY, DONT_DOUBLE_ON_CRIT] False;
          j = join '' + '' N;
          n = (if doubleDice env CRITICAL_SUCCESS then j
               else ''2 * '' @ (if hasOperators (Some j) then ''('' @ j @ '')'' else j))
      in if N = [] then (if C = [] then None else Some (join '' + '' C))
         else if C = [] then Some n
         else Some (n @ '' + '' @ join '' + '' C))"
proof -
  let ?N = "createPartialFormulas groups [DOUBLE_ON_CRIT] (doubleDice env CRITICAL_SUCCESS)"
  let ?C = "createPartialFormulas groups [CRITICAL_ONLY, DONT_DOUBLE_ON_CRIT] False"
  have ne: "\<forall>f\<in>set (createPartialFormulas groups incl' dd'). f \<noteq> []" for incl' dd'
    by (simp add: createPartialFormulas_nonempty)
  have jn: "join '' + '' ?N \<noteq> []" if "?N \<noteq> []"
    using that ne by (rule join_nonempty)
  have jc: "join '' + '' ?C \<noteq> []" if "?C \<noteq> []"
    using that ne by (rule join_nonempty)
  have x: "nonCriticalDamage env CRITICAL_SUCCESS groups \<noteq> Some []"
    using jn by (auto simp: nonCriticalDamage_crit Let_def)
  have y: "criticalDamage CRITICAL_SUCCESS groups \<noteq> Some []"
    using jc by (auto simp: criticalDamage_crit Let_def)
  have "summedDamage env CRITICAL_SUCCESS groups
        = sumExpression [nonCriticalDamage env CRITICAL_SUCCESS groups, criticalDamage CRITICAL_SUCCESS groups] False"
    by (simp add: summedDamage_def)
  also have "\<dots> = (case nonCriticalDamage env CRITICAL_SUCCESS groups of
              None \<Rightarrow> criticalDamage CRITICAL_SUCCESS groups
            | Some a \<Rightarrow> (case criticalDamage CRITICAL_SUCCESS groups of None \<Rightarrow> Some a | Some b \<Rightarrow> Some (a @ '' + '' @ b)))"
    using x y by (rule sumExpression_pair)
  finally show ?thesis
    by (simp add: nonCriticalDamage_crit criticalDamage_crit Let_def)
qed

lemma ensureValidFormulaHead_nonempty: "ensureValidFormulaHead x \<noteq> Some []"
  by (auto simp: ensureValidFormulaHead_def split: option.splits)

lemma instanceOfType_explicit:
  "instanceOfType env degree persistent entry
   = (let ps = filter (\<lambda>p. (category p = Some Persistent) = persistent) (snd entry);
          groups = groupBy ps category
      in if ps = [] then []
         else case ensureValidFormulaHead (summedDamage env degree groups) of
                None \<Rightarrow> []
              | Some e \<Rightarrow> [\<lparr>formula = e @ flavor (fst entry) persistent (snd entry),
                             breakdown = breakdown_of env degree (fst entry) groups\<rparr>])"
proof -
  let ?ps = "filter (\<lambda>p. (category p = Some Persistent) = persistent) (snd entry)"
  let ?enc = "ensureValidFormulaHead (summedDamage env degree (groupBy ?ps category))"
  show ?thesis
  proof (cases ?enc)
    case None
    then show ?thesis by (simp add: instanceOfType_def Let_def truthy_def)
  next
    case (Some e)
    with ensureValidFormulaHead_nonempty[of "summedDamage env degree (groupBy ?ps category)"]
    have "e \<noteq> []" by auto
    with Some show ?thesis
      by (simp add: instanceOfType_def Let_def truthy_def js_str_def)
  qed
qed

lemma tagged_groupBy:
  "taggedPartialFormulas (groupBy ps category) incl dd
   = filter (\<lambda>cf. snd cf \<noteq> [])
       (map (\<lambda>c. (c, categoryFragment c (filter (\<lambda>p. category p = c) ps) incl dd)) categories)"
  by (simp add: taggedPartialFormulas_def categories_def Let_def get_or_empty_groupBy)

lemma flattened_groupBy:
  "flattenedDamage (groupBy ps category) = concat (map (\<lambda>c. filter (\<lambda>p. category p = c) ps) categories)"
  by (simp add: flattenedDamage_def categories_def get_or_empty_groupBy)

subsection \<open>Modifiers with a defaulted damage type\<close>

lemma defaultDamageType_idem [simp]:
  "defaultDamageType b (defaultDamageType b m) = defaultDamageType b m"
  by (simp add: defaultDamageType_def split: option.splits)

lemma defaultModifiers_length [simp]: "length (defaultModifiers b ms refs) = length ms"
  unfolding defaultModifiers_def by (induction refs arbitrary: ms) simp_all











section \<open>The degree-of-success contract\<close>

text \<open>
  Claim C2. For every damage definition, compiling at the critical-failure outcome returns
  null, and critical failure is the only outcome for which null is returned: whatever the
  environment, the definition and the degree argument (given or left out), the result is
  null exactly when the degree given is the critical failure.
\<close>

theorem critical_failure_iff_null:
  "(createDamageFormula env damage degreeArg = None) = (degreeArg = Some CRITICAL_FAILURE)"
  by (cases degreeArg) (simp_all add: createDamageFormula_def Let_def)

text \<open>
  Claim C10. Calling the compiler without an outcome argument returns exactly what the call
  with the success outcome returns, and that is never null.
\<close>

theorem default_degree_is_success:
  "createDamageFormula env damage None = createDamageFormula env damage (Some SUCCESS)
   \<and> createDamageFormula env damage None \<noteq> None"
  by (simp add: createDamageFormula_def Let_def)

section \<open>The failure outcome\<close>

text \<open>
  Claim C1. At the ordinary-failure outcome the dice and modifier lists are filtered down to
  exactly the entries whose category is splash before any grouping, and the base term is kept
  unfiltered: compiling a definition at failure is compiling, as at a success, the definition
  whose base is the same and whose dice and modifiers are the splash entries. Every partial
  of the type map built then is the base partial, or a splash partial made from a dice entry
  or from a modifier entry of the definition.
\<close>

theorem failure_splash_only:
  "createDamageFormula env damage (Some FAILURE)
     = createDamageFormula env (failureFilter damage) (Some SUCCESS)
   \<and> failureFilter damage
     = \<lparr>fd_base = fd_base damage,
        fd_dice = filter (\<lambda>d. d_category d = Some Splash) (fd_dice damage),
        fd_modifiers = filter (\<lambda>m. m_damageCategory m = Some Splash) (fd_modifiers damage)\<rparr>
   \<and> typeMap_all
       (\<lambda>p. p = basePartial (fd_base damage)
            \<or> category p = Some Splash
              \<and> ((\<exists>d \<in> set (fd_dice damage). \<exists>s. p = dicePartial s d)
                 \<or> (\<exists>m \<in> set (fd_modifiers damage). p = modifierPartial m)))
       (buildTypeMap False (failureFilter damage))"
proof (intro conjI)
  show "createDamageFormula env damage (Some FAILURE)
     = createDamageFormula env (failureFilter damage) (Some SUCCESS)"
    by (simp add: createDamageFormula_def deepClone_def assemble_failure_success)
  show "failureFilter damage
     = \<lparr>fd_base = fd_base damage,
        fd_dice = filter (\<lambda>d. d_category d = Some Splash) (fd_dice damage),
        fd_modifiers = filter (\<lambda>m. m_damageCategory m = Some Splash) (fd_modifiers damage)\<rparr>"
    by (simp add: failureFilter_def)
  show "typeMap_all
       (\<lambda>p. p = basePartial (fd_base damage)
            \<or> category p = Some Splash
              \<and> ((\<exists>d \<in> set (fd_dice damage). \<exists>s. p = dicePartial s d)
                 \<or> (\<exists>m \<in> set (fd_modifiers damage). p = modifierPartial m)))
       (buildTypeMap False (failureFilter damage))"
  proof (rule typeMap_all_buildTypeMap)
    show "basePartial (fd_base (failureFilter damage)) = basePartial (fd_base damage)
          \<or> category (basePartial (fd_base (failureFilter damage))) = Some Splash
            \<and> ((\<exists>d \<in> set (fd_dice damage). \<exists>s. basePartial (fd_base (failureFilter damage)) = dicePartial s d)
               \<or> (\<exists>m \<in> set (fd_modifiers damage). basePartial (fd_base (failureFilter damage)) = modifierPartial m))"
      by (simp add: failureFilter_def)
  next
    fix s d
    assume "d \<in> set (fd_dice (failureFilter damage))" "d_enabled d"
    then have "d \<in> set (fd_dice damage)" "category (dicePartial s d) = Some Splash"
      by (simp_all add: failureFilter_def dicePartial_def)
    then show "dicePartial s d = basePartial (fd_base damage)
          \<or> category (dicePartial s d) = Some Splash
            \<and> ((\<exists>d' \<in> set (fd_dice damage). \<exists>s'. dicePartial s d = dicePartial s' d')
               \<or> (\<exists>m \<in> set (fd_modifiers damage). dicePartial s d = modifierPartial m))"
      by blast
  next
    fix m
    assume "m \<in> set (fd_modifiers (failureFilter damage))" "m_enabled m"
    then have "m \<in> set (fd_modifiers damage)" "category (modifierPartial m) = Some Splash"
      by (simp_all add: failureFilter_def modifierPartial_def)
    then show "modifierPartial m = basePartial (fd_base damage)
          \<or> category (modifierPartial m) = Some Splash
            \<and> ((\<exists>d \<in> set (fd_dice damage). \<exists>s. modifierPartial m = dicePartial s d)
               \<or> (\<exists>m' \<in> set (fd_modifiers damage). modifierPartial m = modifierPartial m'))"
      by blast
  qed
qed

text \<open>On the example the fire modifier +3 is gone, the base 2d6 and the splash die stay.\<close>

theorem failure_splash_only_witness:
  "createDamageFormula env_subtotal fire_example (Some FAILURE)
     = Some \<lparr>formula = ''{(2d6 + 1d4[splash])[fire]}'', breakdown = [''2d6 fire'', ''Splash'']\<rparr>
   \<and> fd_modifiers (failureFilter fire_example) = []
   \<and> length (fd_dice (failureFilter fire_example)) = 1"
proof -
  have "createDamageFormula env_subtotal (failureFilter fire_example) (Some SUCCESS)
     = Some \<lparr>formula = ''{(2d6 + 1d4[splash])[fire]}'', breakdown = [''2d6 fire'', ''Splash'']\<rparr>"
    by code_simp
  moreover have "fd_modifiers (failureFilter fire_example) = []"
    "length (fd_dice (failureFilter fire_example)) = 1"
    by (simp_all add: failureFilter_def fire_example_def)
  ultimately show ?thesis
    using failure_splash_only [of env_subtotal fire_example] by simp
qed

section \<open>The outcome filter of the type partitioner\<close>

text \<open>
  Claim C6. On a non-critical outcome an enabled modifier flagged critical-only is dropped
  during type partitioning and never enters the type map: the type map, and the compiled
  result, are those of the definition without its critical-only modifiers, and every
  critical-only partial of the type map comes from a dice entry. Dice entries are not filtered
  by their flag at partition time: at any outcome an enabled dice entry with a positive count
  and a die size stands in the type map under its damage type with its flag intact. It is
  screened later, at category assembly: on a non-critical outcome the summed expression of
  the groups is that of the groups without their critical-only partials.
\<close>

theorem criticalOnly_modifiers_dropped_dice_kept:
  "(degree \<noteq> CRITICAL_SUCCESS \<longrightarrow>
      buildTypeMap (degree = CRITICAL_SUCCESS) (withoutCriticalOnlyModifiers damage)
        = buildTypeMap (degree = CRITICAL_SUCCESS) damage
      \<and> typeMap_all (\<lambda>p. critical p = Some True \<longrightarrow> (\<exists>d \<in> set (fd_dice damage). \<exists>s. p = dicePartial s d))
          (buildTypeMap (degree = CRITICAL_SUCCESS) damage)
      \<and> createDamageFormula env (withoutCriticalOnlyModifiers damage) (Some degree)
        = createDamageFormula env damage (Some degree)
      \<and> summedDamage env degree (map (\<lambda>g. (fst g, withoutCriticalOnly (snd g))) groups)
        = summedDamage env degree groups)
   \<and> (d \<in> set (fd_dice damage) \<and> d_enabled d \<and> d_diceNumber d > 0
        \<and> resolvedDieSize (fd_base damage) d = Some s \<longrightarrow>
      dicePartial s d \<in> set (get_or_empty (buildTypeMap crit damage)
                               (resolvedDamageType (fd_base damage) (d_damageType d)))
      \<and> critical (dicePartial s d) = d_critical d)"
proof (intro conjI impI)
  assume nc: "degree \<noteq> CRITICAL_SUCCESS"
  then have c: "(degree = CRITICAL_SUCCESS) = False" by simp
  show "buildTypeMap (degree = CRITICAL_SUCCESS) (withoutCriticalOnlyModifiers damage)
        = buildTypeMap (degree = CRITICAL_SUCCESS) damage"
    unfolding c by (rule buildTypeMap_without)
  show "typeMap_all (\<lambda>p. critical p = Some True \<longrightarrow> (\<exists>d \<in> set (fd_dice damage). \<exists>s. p = dicePartial s d))
          (buildTypeMap (degree = CRITICAL_SUCCESS) damage)"
    unfolding c
  proof (rule typeMap_all_buildTypeMap)
    show "critical (basePartial (fd_base damage)) = Some True
          \<longrightarrow> (\<exists>d \<in> set (fd_dice damage). \<exists>s. basePartial (fd_base damage) = dicePartial s d)"
      by (simp add: basePartial_def)
  next
    fix s d
    assume "d \<in> set (fd_dice damage)"
    then show "critical (dicePartial s d) = Some True
          \<longrightarrow> (\<exists>d' \<in> set (fd_dice damage). \<exists>s'. dicePartial s d = dicePartial s' d')"
      by blast
  next
    fix m :: ModifierPF2e
    assume "outcomeMatches False (m_critical m)"
    then show "critical (modifierPartial m) = Some True
          \<longrightarrow> (\<exists>d \<in> set (fd_dice damage). \<exists>s. modifierPartial m = dicePartial s d)"
      by (simp add: outcomeMatches_def modifierPartial_def)
  qed
  have ff: "failureFilter (withoutCriticalOnlyModifiers damage)
            = withoutCriticalOnlyModifiers (failureFilter damage)"
    by (simp add: failureFilter_def withoutCriticalOnlyModifiers_def conj_commute)
  show "createDamageFormula env (withoutCriticalOnlyModifiers damage) (Some degree)
        = createDamageFormula env damage (Some degree)"
    using nc by (simp add: createDamageFormula_def deepClone_def ff buildTypeMap_without)
  show "summedDamage env degree (map (\<lambda>g. (fst g, withoutCriticalOnly (snd g))) groups)
        = summedDamage env degree groups"
    using nc by (rule summedDamage_without)
next
  assume a: "d \<in> set (fd_dice damage) \<and> d_enabled d \<and> d_diceNumber d > 0
        \<and> resolvedDieSize (fd_base damage) d = Some s"
  then show "dicePartial s d \<in> set (get_or_empty (buildTypeMap crit damage)
                               (resolvedDamageType (fd_base damage) (d_damageType d)))"
    by (intro buildTypeMap_contains_dice) simp_all
  show "critical (dicePartial s d) = d_critical d"
    by (simp add: dicePartial_def)
qed

text \<open>At a success the critical-only modifier is in no list of the type map; the critical-only
  die is there (it even fixes the place of the cold instance before the acid one) and is left
  out of the formula and of the breakdown only afterwards.\<close>

theorem criticalOnly_modifiers_dropped_dice_kept_witness:
  "SUCCESS \<noteq> CRITICAL_SUCCESS
   \<and> deadly_die \<in> set (fd_dice critOnly_example) \<and> d_enabled deadly_die \<and> d_diceNumber deadly_die > 0
   \<and> resolvedDieSize (fd_base critOnly_example) deadly_die = Some D6
   \<and> map (\<lambda>e. (fst e, map label (snd e))) (buildTypeMap False critOnly_example)
     = [(''fire'', [''2d6'']), (''cold'', [''Deadly'', ''Frost +2'']), (''acid'', [''Acid +1''])]
   \<and> dicePartial D6 deadly_die \<in> set (get_or_empty (buildTypeMap False critOnly_example) ''cold'')
   \<and> critical (dicePartial D6 deadly_die) = Some True
   \<and> createDamageFormula env_subtotal (withoutCriticalOnlyModifiers critOnly_example) (Some SUCCESS)
     = Some \<lparr>formula = ''{2d6[fire],2[cold],1[acid]}'',
             breakdown = [''2d6 fire'', ''Frost +2 cold'', ''Acid +1 acid'']\<rparr>"
proof -
  have h: "deadly_die \<in> set (fd_dice critOnly_example) \<and> d_enabled deadly_die \<and> d_diceNumber deadly_die > 0
        \<and> resolvedDieSize (fd_base critOnly_example) deadly_die = Some D6"
    by (simp add: critOnly_example_def deadly_die_def resolvedDieSize_def)
  have t: "resolvedDamageType (fd_base critOnly_example) (d_damageType deadly_die) = ''cold''"
    "d_critical deadly_die = Some True"
    by (simp_all add: deadly_die_def resolvedDamageType_def)
  have m: "map (\<lambda>e. (fst e, map label (snd e))) (buildTypeMap False critOnly_example)
     = [(''fire'', [''2d6'']), (''cold'', [''Deadly'', ''Frost +2'']), (''acid'', [''Acid +1''])]"
    by code_simp
  have f: "createDamageFormula env_subtotal critOnly_example (Some SUCCESS)
     = Some \<lparr>formula = ''{2d6[fire],2[cold],1[acid]}'',
             breakdown = [''2d6 fire'', ''Frost +2 cold'', ''Acid +1 acid'']\<rparr>"
    by code_simp
  show ?thesis
    using criticalOnly_modifiers_dropped_dice_kept
            [of SUCCESS critOnly_example env_subtotal "[]" deadly_die D6 False] h t m f
    by simp
qed

section \<open>Doubling on a critical success\<close>



section \<open>The dice and modifier combiner\<close>

text \<open>
  Claim C4 says that dice partials are grouped by face count and their counts summed, so that
  a negative count cancels a positive one of the same die size, groups that sum to 0 or less
  being discarded. The combiner keeps the partials with a positive count only (line 221)
  before it groups them: for \<^verbatim>\<open>2d6 - 1d6\<close> the subtracted die is dropped, nothing is
  cancelled and the result is \<^verbatim>\<open>2d6\<close>, although the counts of the d6 partials sum to 1.
\<close>

theorem negative_dice_dropped_before_grouping:
  "sum_values (map number (List.map_filter dice two_d6_minus_one_d6)) = 1
   \<and> dicePartials two_d6_minus_one_d6 = [\<lparr>number = 2, faces = 6\<rparr>]
   \<and> positiveDice (dicePartials two_d6_minus_one_d6) = [\<lparr>number = 2, faces = 6\<rparr>]
   \<and> combinePartialTerms two_d6_minus_one_d6 False = ''2d6''"
  by code_simp

text \<open>
  Claim C4, amended. The dice partials with a positive count, and only those, are grouped by
  face count and the counts within a group are summed; a partial whose count is 0 or less is
  dropped before the grouping and cancels nothing. The kept dice are those of the terms with
  a positive count, ordered by descending faces; there is exactly one group for each face
  count among them, the groups stand by strictly descending faces, and the count of a group
  is the sum of the counts of the kept dice of its face count. Every group then has a
  positive count, so the discard of the groups with a count of 0 or less removes nothing.
  The combiner renders exactly these groups, one dice term each in that order, followed by
  the constant.
\<close>

theorem positive_dice_grouped_and_summed:
  "(let pos = concat (map (\<lambda>p. case dice p of None \<Rightarrow> [] | Some d \<Rightarrow> if 0 < number d then [d] else []) terms);
        groups = positiveDice (dicePartials terms)
    in dicePartials terms = sort_key (\<lambda>d. - faces d) pos
       \<and> groups = combinedDice (dicePartials terms)
       \<and> sorted_wrt (\<lambda>a b. faces b < faces a) groups
       \<and> faces ` set groups = faces ` set pos
       \<and> (\<forall>t \<in> set groups.
             0 < number t
             \<and> number t = sum_list (map number (filter (\<lambda>d. faces d = faces t) pos)))
       \<and> combinePartialTerms terms dd
           = (let k = sum_list (map modifier terms)
              in join (if 0 < k then '' + '' else '' - '')
                   ((if groups = [] then [] else [join '' + '' (map (diceTerm dd) groups)])
                    @ (if k = 0 then [] else [(if dd then ''2 * '' else []) @ number_string \<bar>k\<bar>])))
       \<and> diceTerm False t = number_string (number t) @ ''d'' @ number_string (faces t)
       \<and> diceTerm True t
           = ''('' @ number_string (2 * number t) @ ''d'' @ number_string (faces t) @ ''[doubled])'')"
proof -
  define pos where
    "pos = concat (map (\<lambda>p. case dice p of None \<Rightarrow> [] | Some d \<Rightarrow> if 0 < number d then [d] else []) terms)"
  define groups where "groups = positiveDice (dicePartials terms)"
  have dp: "dicePartials terms = sort_key (\<lambda>d. - faces d) pos"
    unfolding pos_def by (rule dicePartials_explicit)
  have g: "groups = combinedDice (dicePartials terms)"
    unfolding groups_def by (rule positiveDice_is_combinedDice)
  have s: "sorted_wrt (\<lambda>a b. faces b < faces a) groups"
    unfolding g by (rule combinedDice_descending)
  have "faces ` set groups = set (map faces (combinedDice (dicePartials terms)))"
    by (simp add: g)
  also have "\<dots> = fst ` set (groupBy (dicePartials terms) faces)"
    by (simp add: combinedDice_faces)
  also have "\<dots> = faces ` set (dicePartials terms)"
    by (rule groupBy_keys_set)
  also have "\<dots> = faces ` set pos"
    by (simp add: dp)
  finally have f: "faces ` set groups = faces ` set pos" .
  have n: "0 < number t' \<and> number t' = sum_list (map number (filter (\<lambda>d. faces d = faces t') pos))"
    if "t' \<in> set groups" for t'
  proof -
    from that have c: "t' \<in> set (combinedDice (dicePartials terms))" and p: "0 < number t'"
      by (simp_all add: groups_def positiveDice_def)
    from c have "number t' = sum_list (map number (filter (\<lambda>d. faces d = faces t') (dicePartials terms)))"
      by (rule combinedDice_number)
    then show ?thesis using p by (simp add: dp sum_filter_sort)
  qed
  have r: "combinePartialTerms terms dd
           = (let k = sum_list (map modifier terms)
              in join (if 0 < k then '' + '' else '' - '')
                   ((if groups = [] then [] else [join '' + '' (map (diceTerm dd) groups)])
                    @ (if k = 0 then [] else [(if dd then ''2 * '' else []) @ number_string \<bar>k\<bar>])))"
    by (simp add: combinePartialTerms_explicit groups_def Let_def)
  have t: "diceTerm False t = number_string (number t) @ ''d'' @ number_string (faces t)"
    "diceTerm True t = ''('' @ number_string (2 * number t) @ ''d'' @ number_string (faces t) @ ''[doubled])''"
    by (simp_all add: diceTerm_def Let_def mult.commute)
  have n': "\<forall>t' \<in> set groups.
             0 < number t'
             \<and> number t' = sum_list (map number (filter (\<lambda>d. faces d = faces t') pos))"
    using n by blast
  show ?thesis
    unfolding Let_def pos_def[symmetric] groups_def[symmetric]
    using dp g s f n' r[unfolded Let_def] t by (intro conjI)
qed

text \<open>Two d6 partials are summed to 3d6; the negative d8 partial is dropped and does not
  cancel the positive one, so the d8 group has the count 1.\<close>

theorem positive_dice_grouped_and_summed_witness:
  "positiveDice (dicePartials dice_mix) = [\<lparr>number = 1, faces = 8\<rparr>, \<lparr>number = 3, faces = 6\<rparr>]
   \<and> combinePartialTerms dice_mix False = ''1d8 + 3d6''
   \<and> combinePartialTerms dice_mix True = ''(2d8[doubled]) + (6d6[doubled])''
   \<and> dicePartials dice_mix = [\<lparr>number = 1, faces = 8\<rparr>, \<lparr>number = 2, faces = 6\<rparr>, \<lparr>number = 1, faces = 6\<rparr>]
   \<and> sorted_wrt (\<lambda>a b. faces b < faces a) (positiveDice (dicePartials dice_mix))
   \<and> sum_list (map number (filter (\<lambda>d. faces d = 6)
         (concat (map (\<lambda>p. case dice p of None \<Rightarrow> [] | Some d \<Rightarrow> if 0 < number d then [d] else [])
            dice_mix)))) = 3
   \<and> sum_list (map number (filter (\<lambda>d. faces d = 8)
         (concat (map (\<lambda>p. case dice p of None \<Rightarrow> [] | Some d \<Rightarrow> if 0 < number d then [d] else [])
            dice_mix)))) = 1"
proof -
  have a: "positiveDice (dicePartials dice_mix) = [\<lparr>number = 1, faces = 8\<rparr>, \<lparr>number = 3, faces = 6\<rparr>]"
    "combinePartialTerms dice_mix False = ''1d8 + 3d6''"
    "combinePartialTerms dice_mix True = ''(2d8[doubled]) + (6d6[doubled])''"
    "dicePartials dice_mix = [\<lparr>number = 1, faces = 8\<rparr>, \<lparr>number = 2, faces = 6\<rparr>, \<lparr>number = 1, faces = 6\<rparr>]"
    by code_simp+
  note t = positive_dice_grouped_and_summed [of dice_mix False, unfolded Let_def]
  have s: "sorted_wrt (\<lambda>a b. faces b < faces a) (positiveDice (dicePartials dice_mix))"
    using t by blast
  have "\<forall>t \<in> set (positiveDice (dicePartials dice_mix)).
          0 < number t
          \<and> number t = sum_list (map number (filter (\<lambda>d. faces d = faces t)
               (concat (map (\<lambda>p. case dice p of None \<Rightarrow> [] | Some d \<Rightarrow> if 0 < number d then [d] else [])
                  dice_mix))))"
    using t by blast
  then have n: "sum_list (map number (filter (\<lambda>d. faces d = 6)
         (concat (map (\<lambda>p. case dice p of None \<Rightarrow> [] | Some d \<Rightarrow> if 0 < number d then [d] else [])
            dice_mix)))) = 3"
    "sum_list (map number (filter (\<lambda>d. faces d = 8)
         (concat (map (\<lambda>p. case dice p of None \<Rightarrow> [] | Some d \<Rightarrow> if 0 < number d then [d] else [])
            dice_mix)))) = 1"
    unfolding a(1) by simp_all
  from a s n show ?thesis by (intro conjI)
qed

section \<open>The head of an instance formula\<close>

text \<open>
  Claim C5 says that the summed expression is wrapped in parentheses unless a single balanced
  group encloses it or it is a bare \<^verbatim>\<open>NdF\<close> or integer, so that the flavor tag never binds
  to the last additive term only. The test of line 299 only asks for an opening parenthesis
  first and a closing one last: under the dice-doubling rule a critical hit with two die
  sizes gives a sum of two parenthesised terms, which is left as it is, and the tag
  \<^verbatim>\<open>[fire]\<close> follows the last term.
\<close>

theorem flavor_follows_last_term_only:
  "isWrapped ''(2d8[doubled]) + (2d6[doubled])''
   \<and> ensureValidFormulaHead (Some ''(2d8[doubled]) + (2d6[doubled])'')
       = Some ''(2d8[doubled]) + (2d6[doubled])''
   \<and> createDamageFormula env_doubledice two_dice_example (Some CRITICAL_SUCCESS)
       = Some \<lparr>formula = ''{(2d8[doubled]) + (2d6[doubled])[fire]}'',
               breakdown = [''1d8 fire'', ''Flame'']\<rparr>"
  by code_simp

section \<open>Repeated compilation\<close>




section \<open>The order of the categories\<close>

text \<open>
  Claim C7 says that in every per-type term the fragments of the categories none, persistent,
  precision and splash stand in that order, and that the same order governs the labels of
  the breakdown. At a critical success the term is the sum of two sub-expressions, each with
  its own fragments: the fragment of the critical-only modifier (category none) follows the
  splash fragment, and its label follows the splash label.
\<close>

theorem category_order_counterexample:
  "createDamageFormula env_subtotal crit_splash_example (Some CRITICAL_SUCCESS)
     = Some \<lparr>formula = ''{(2 * (1d6 + 1d4[splash]) + 2)[slashing]}'',
             breakdown = [''1d6 slashing'', ''Splash'', ''Fatal +2'']\<rparr>
   \<and> termFragments env_subtotal CRITICAL_SUCCESS (groupBy (crit_splash_partials True) category)
     = [(None, ''1d6''), (Some Splash, ''1d4[splash]''), (None, ''2'')]
   \<and> \<not> sorted_wrt (<) (map (categoryRank \<circ> fst)
           (termFragments env_subtotal CRITICAL_SUCCESS (groupBy (crit_splash_partials True) category)))
   \<and> map category (breakdownDamage CRITICAL_SUCCESS (groupBy (crit_splash_partials True) category))
     = [None, Some Splash, None]
   \<and> \<not> sorted (map (categoryRank \<circ> category)
           (breakdownDamage CRITICAL_SUCCESS (groupBy (crit_splash_partials True) category)))"
  by code_simp

text \<open>
  Claim C7, amended. Within each sub-expression of a term (the non-critical one and, at a
  critical success, the critical-only one) the fragments stand in the order none, persistent,
  precision, splash, whatever the order of the entries: the fragment of a category is made
  from the partials of that category alone. At every outcome but the critical success the
  term is the sum of the fragments of its one sub-expression, so the order holds for the
  whole term. At a critical success the term is the non-critical sub-expression, doubled as
  a whole under the subtotal rule, followed by the critical-only one. The breakdown of an
  instance names the partials category by category in the same order, those not flagged
  critical-only first and, at a critical success, the critical-only ones after them; the
  first label carries the name of the damage type.
\<close>

theorem category_order_within_subexpressions:
  "taggedPartialFormulas (groupBy ps category) incl dd
     = filter (\<lambda>cf. snd cf \<noteq> [])
         (map (\<lambda>c. (c, categoryFragment c (filter (\<lambda>p. category p = c) ps) incl dd)) categories)
   \<and> createPartialFormulas groups incl dd = map snd (taggedPartialFormulas groups incl dd)
   \<and> sorted_wrt (<) (map (categoryRank \<circ> fst) (taggedPartialFormulas groups incl dd))
   \<and> (degree \<noteq> CRITICAL_SUCCESS \<longrightarrow>
         termFragments env degree groups
           = taggedPartialFormulas groups [DOUBLE_ON_CRIT, DONT_DOUBLE_ON_CRIT] False
         \<and> sorted_wrt (<) (map (categoryRank \<circ> fst) (termFragments env degree groups))
         \<and> summedDamage env degree groups
             = (let parts = map snd (termFragments env degree groups)
                in if parts = [] then None else Some (join '' + '' parts)))
   \<and> (degree = CRITICAL_SUCCESS \<longrightarrow>
         termFragments env degree groups
           = taggedPartialFormulas groups [DOUBLE_ON_CRIT] (doubleDice env degree)
             @ taggedPartialFormulas groups [CRITICAL_ONLY, DONT_DOUBLE_ON_CRIT] False
         \<and> summedDamage env degree groups
             = (let N = map snd (taggedPartialFormulas groups [DOUBLE_ON_CRIT] (doubleDice env degree));
                    C = map snd (taggedPartialFormulas groups [CRITICAL_ONLY, DONT_DOUBLE_ON_CRIT] False);
                    j = join '' + '' N;
                    n = (if doubleDice env degree then j
                         else ''2 * '' @ (if hasOperators (Some j) then ''('' @ j @ '')'' else j))
                in if N = [] then (if C = [] then None else Some (join '' + '' C))
                   else if C = [] then Some n
                   else Some (n @ '' + '' @ join '' + '' C)))
   \<and> instanceOfType env degree persistent entry
       = (let qs = filter (\<lambda>p. (category p = Some Persistent) = persistent) (snd entry)
          in if qs = [] then []
             else case ensureValidFormulaHead (summedDamage env degree (groupBy qs category)) of
                    None \<Rightarrow> []
                  | Some e \<Rightarrow> [\<lparr>formula = e @ flavor (fst entry) persistent (snd entry),
                                 breakdown = breakdown_of env degree (fst entry) (groupBy qs category)\<rparr>])
   \<and> breakdown_of env degree t groups
       = (let typeLabel = localize env (case damageTypes env t of None \<Rightarrow> t | Some n \<Rightarrow> n)
          in case breakdownDamage degree groups of
               [] \<Rightarrow> []
             | d0 # ds \<Rightarrow>
                 (stripLeadingPlus (label d0) @ '' ''
                  @ (if category d0 = Some Persistent
                     then i18n_format env ''PF2E.Damage.PersistentTooltip'' typeLabel else typeLabel))
                 # map label ds)
   \<and> breakdownDamage degree (groupBy ps category)
       = (let flat = concat (map (\<lambda>c. filter (\<lambda>p. category p = c) ps) categories)
          in filter (\<lambda>d. critical d \<noteq> Some True) flat
             @ (if degree = CRITICAL_SUCCESS then filter (\<lambda>d. critical d = Some True) flat else []))
   \<and> sorted (map (categoryRank \<circ> category)
         (filter (\<lambda>d. critical d \<noteq> Some True) (flattenedDamage (groupBy ps category))))
   \<and> sorted (map (categoryRank \<circ> category)
         (filter (\<lambda>d. critical d = Some True) (flattenedDamage (groupBy ps category))))
   \<and> (degree \<noteq> CRITICAL_SUCCESS \<longrightarrow>
         sorted (map (categoryRank \<circ> category) (breakdownDamage degree (groupBy ps category))))"
proof (intro conjI impI)
  show "taggedPartialFormulas (groupBy ps category) incl dd
     = filter (\<lambda>cf. snd cf \<noteq> [])
         (map (\<lambda>c. (c, categoryFragment c (filter (\<lambda>p. category p = c) ps) incl dd)) categories)"
    by (rule tagged_groupBy)
  show "createPartialFormulas groups incl dd = map snd (taggedPartialFormulas groups incl dd)"
    by (simp add: map_snd_tagged)
  show "sorted_wrt (<) (map (categoryRank \<circ> fst) (taggedPartialFormulas groups incl dd))"
    by (rule tagged_sorted)
  show "termFragments env degree groups
           = taggedPartialFormulas groups [DOUBLE_ON_CRIT, DONT_DOUBLE_ON_CRIT] False"
    if "degree \<noteq> CRITICAL_SUCCESS"
    using that by (simp add: termFragments_def criticalInclusion_nonCritical_def doubleDice_def)
  show "sorted_wrt (<) (map (categoryRank \<circ> fst) (termFragments env degree groups))"
    if "degree \<noteq> CRITICAL_SUCCESS"
    using that by (simp add: termFragments_def tagged_sorted)
  show "summedDamage env degree groups
             = (let parts = map snd (termFragments env degree groups)
                in if parts = [] then None else Some (join '' + '' parts))"
    if "degree \<noteq> CRITICAL_SUCCESS"
    using that
    by (simp add: summedDamage_noncritical termFragments_def map_snd_tagged
        criticalInclusion_nonCritical_def doubleDice_def)
  show "termFragments env degree groups
           = taggedPartialFormulas groups [DOUBLE_ON_CRIT] (doubleDice env degree)
             @ taggedPartialFormulas groups [CRITICAL_ONLY, DONT_DOUBLE_ON_CRIT] False"
    if "degree = CRITICAL_SUCCESS"
    using that by (simp add: termFragments_def criticalInclusion_nonCritical_def)
  show "summedDamage env degree groups
             = (let N = map snd (taggedPartialFormulas groups [DOUBLE_ON_CRIT] (doubleDice env degree));
                    C = map snd (taggedPartialFormulas groups [CRITICAL_ONLY, DONT_DOUBLE_ON_CRIT] False);
                    j = join '' + '' N;
                    n = (if doubleDice env degree then j
                         else ''2 * '' @ (if hasOperators (Some j) then ''('' @ j @ '')'' else j))
                in if N = [] then (if C = [] then None else Some (join '' + '' C))
                   else if C = [] then Some n
                   else Some (n @ '' + '' @ join '' + '' C))"
    if "degree = CRITICAL_SUCCESS"
    unfolding that map_snd_tagged by (rule summedDamage_crit)
  show "instanceOfType env degree persistent entry
       = (let qs = filter (\<lambda>p. (category p = Some Persistent) = persistent) (snd entry)
          in if qs = [] then []
             else case ensureValidFormulaHead (summedDamage env degree (groupBy qs category)) of
                    None \<Rightarrow> []
                  | Some e \<Rightarrow> [\<lparr>formula = e @ flavor (fst entry) persistent (snd entry),
                                 breakdown = breakdown_of env degree (fst entry) (groupBy qs category)\<rparr>])"
    using instanceOfType_explicit[of env degree persistent entry] by (simp add: Let_def)
  show "breakdown_of env degree t groups
       = (let typeLabel = localize env (case damageTypes env t of None \<Rightarrow> t | Some n \<Rightarrow> n)
          in case breakdownDamage degree groups of
               [] \<Rightarrow> []
             | d0 # ds \<Rightarrow>
                 (stripLeadingPlus (label d0) @ '' ''
                  @ (if category d0 = Some Persistent
                     then i18n_format env ''PF2E.Damage.PersistentTooltip'' typeLabel else typeLabel))
                 # map label ds)"
    by (simp add: breakdown_of_def Let_def split: list.splits)
  show "breakdownDamage degree (groupBy ps category)
       = (let flat = concat (map (\<lambda>c. filter (\<lambda>p. category p = c) ps) categories)
          in filter (\<lambda>d. critical d \<noteq> Some True) flat
             @ (if degree = CRITICAL_SUCCESS then filter (\<lambda>d. critical d = Some True) flat else []))"
    unfolding breakdownDamage_def flattened_groupBy Let_def by (rule refl)
  show "sorted (map (categoryRank \<circ> category)
         (filter (\<lambda>d. critical d \<noteq> Some True) (flattenedDamage (groupBy ps category))))"
    by (rule sorted_filter[OF flattened_sorted])
  show "sorted (map (categoryRank \<circ> category)
         (filter (\<lambda>d. critical d = Some True) (flattenedDamage (groupBy ps category))))"
    by (rule sorted_filter[OF flattened_sorted])
  show "sorted (map (categoryRank \<circ> category) (breakdownDamage degree (groupBy ps category)))"
    if "degree \<noteq> CRITICAL_SUCCESS"
    using that by (rule breakdown_sorted)
qed

text \<open>On a definition whose entries are listed against the order of the categories: at the
  critical success each of the two sub-expressions is in order, the critical-only constant
  comes last, and the labels follow the same order; at a success the term is the sum of the
  fragments in order.\<close>

theorem category_order_within_subexpressions_witness:
  "CRITICAL_SUCCESS = CRITICAL_SUCCESS
   \<and> map category unordered_partials = [None, Some Splash, Some Precision, None, None]
   \<and> taggedPartialFormulas (groupBy unordered_partials category) [DOUBLE_ON_CRIT] False
       = [(None, ''1d8 + 3''), (Some Precision, ''1d6[precision]''), (Some Splash, ''1d4[splash]'')]
   \<and> taggedPartialFormulas (groupBy unordered_partials category) [CRITICAL_ONLY, DONT_DOUBLE_ON_CRIT] False
       = [(None, ''2'')]
   \<and> summedDamage env_subtotal CRITICAL_SUCCESS (groupBy unordered_partials category)
       = Some ''2 * (1d8 + 3 + 1d6[precision] + 1d4[splash]) + 2''
   \<and> map label (breakdownDamage CRITICAL_SUCCESS (groupBy unordered_partials category))
       = [''1d8'', ''Str +3'', ''Sneak'', ''Splash'', ''Fatal +2'']
   \<and> breakdown_of env_subtotal CRITICAL_SUCCESS ''slashing'' (groupBy unordered_partials category)
       = [''1d8 slashing'', ''Str +3'', ''Sneak'', ''Splash'', ''Fatal +2'']
   \<and> SUCCESS \<noteq> CRITICAL_SUCCESS
   \<and> summedDamage env_subtotal SUCCESS (groupBy unordered_partials category)
       = Some ''1d8 + 3 + 1d6[precision] + 1d4[splash]''"
proof -
  let ?g = "groupBy unordered_partials category"
  have c: "map category unordered_partials = [None, Some Splash, Some Precision, None, None]"
    by code_simp
  have n: "taggedPartialFormulas ?g [DOUBLE_ON_CRIT] False
       = [(None, ''1d8 + 3''), (Some Precision, ''1d6[precision]''), (Some Splash, ''1d4[splash]'')]"
    by code_simp
  have k: "taggedPartialFormulas ?g [CRITICAL_ONLY, DONT_DOUBLE_ON_CRIT] False = [(None, ''2'')]"
    by code_simp
  have s: "taggedPartialFormulas ?g [DOUBLE_ON_CRIT, DONT_DOUBLE_ON_CRIT] False
       = [(None, ''1d8 + 3''), (Some Precision, ''1d6[precision]''), (Some Splash, ''1d4[splash]'')]"
    by code_simp
  have d: "doubleDice env_subtotal CRITICAL_SUCCESS = False"
    by (simp add: doubleDice_def env_subtotal_def)
  have b: "map label (breakdownDamage CRITICAL_SUCCESS ?g)
       = [''1d8'', ''Str +3'', ''Sneak'', ''Splash'', ''Fatal +2'']"
    by code_simp
  have l: "breakdown_of env_subtotal CRITICAL_SUCCESS ''slashing'' ?g
       = [''1d8 slashing'', ''Str +3'', ''Sneak'', ''Splash'', ''Fatal +2'']"
    by code_simp
  note t1 = category_order_within_subexpressions
    [where degree = CRITICAL_SUCCESS and groups = ?g and env = env_subtotal]
  note t2 = category_order_within_subexpressions
    [where degree = SUCCESS and groups = ?g and env = env_subtotal]
  have x: "summedDamage env_subtotal CRITICAL_SUCCESS ?g
       = Some ''2 * (1d8 + 3 + 1d6[precision] + 1d4[splash]) + 2''"
    using t1 by (simp add: n k d Let_def hasOperators_def)
  have y: "summedDamage env_subtotal SUCCESS ?g = Some ''1d8 + 3 + 1d6[precision] + 1d4[splash]''"
    using t2 by (simp add: s Let_def)
  show ?thesis
    using c n k b l x y by simp
qed

section \<open>The shape of the pooled formula\<close>




end
